theory Spec2Isabelle
  imports Complex_Main "HOL-Library.Word" "HOL-Library.AList"
begin

section \<open>JavaScript strings\<close>

text \<open>
  A JavaScript string is a sequence of UTF-16 code units; \<open>length\<close> counts code units,
  as \<open>String.prototype.length\<close> does. String literals of the source are ASCII and are
  written with \<open>ascii\<close>.
\<close>

type_synonym code_unit = "16 word"
type_synonym jsstring = "code_unit list"

definition ascii :: "string \<Rightarrow> jsstring" where
  "ascii s = map (\<lambda>c. of_nat (of_char c)) s"

text \<open>
  \<open>String.prototype.trim\<close> removes WhiteSpace and LineTerminator code points from both
  ends: TAB, LF, VT, FF, CR, SP, NBSP, the Unicode space separators (U+1680,
  U+2000..U+200A, U+202F, U+205F, U+3000), LS, PS and the byte order mark U+FEFF.
\<close>

definition is_js_space :: "code_unit \<Rightarrow> bool" where
  "is_js_space c \<longleftrightarrow>
     c = 0x09 \<or> c = 0x0A \<or> c = 0x0B \<or> c = 0x0C \<or> c = 0x0D \<or> c = 0x20 \<or> c = 0xA0 \<or>
     c = 0x1680 \<or> (0x2000 \<le> c \<and> c \<le> 0x200A) \<or> c = 0x2028 \<or> c = 0x2029 \<or>
     c = 0x202F \<or> c = 0x205F \<or> c = 0x3000 \<or> c = 0xFEFF"

definition trim :: "jsstring \<Rightarrow> jsstring" where
  "trim s = rev (dropWhile is_js_space (rev (dropWhile is_js_space s)))"

text \<open>
  \<open>s.split(sep)\<close> for a separator of one code unit: the maximal separator-free pieces,
  in order; the empty string gives one empty piece.
\<close>

fun split_on :: "code_unit \<Rightarrow> jsstring \<Rightarrow> jsstring list" where
  "split_on sep [] = [[]]"
| "split_on sep (c # cs) =
     (let r = split_on sep cs in if c = sep then [] # r else (c # hd r) # tl r)"

text \<open>\<open>Array.prototype.join\<close> with a separator of one code unit, on an array of strings.\<close>

fun join_with :: "code_unit \<Rightarrow> jsstring list \<Rightarrow> jsstring" where
  "join_with sep [] = []"
| "join_with sep [p] = p"
| "join_with sep (p # q # ps) = p @ sep # join_with sep (q # ps)"

definition comma :: code_unit where
  "comma = 0x2C"

section \<open>JSON values and JSON.parse\<close>

text \<open>
  The values \<open>JSON.parse\<close> builds. A number holds the exact decimal value of its
  literal; JavaScript keeps the nearest double, and the code below only observes whether
  that double is zero (\<open>truthy\<close>). An object is its list of own properties; a repeated
  key overwrites the earlier value and keeps its place (\<open>AList.update\<close>).
\<close>

datatype json =
    JNull
  | JBool bool
  | JNum rat
  | JStr jsstring
  | JArr "json list"
  | JObj "(jsstring \<times> json) list"

datatype token =
    LBrace | RBrace | LBracket | RBracket | Colon | Comma
  | TString jsstring | TNumber rat | TTrue | TFalse | TNull

text \<open>JSON whitespace is TAB, LF, CR and SP only.\<close>

definition is_json_ws :: "code_unit \<Rightarrow> bool" where
  "is_json_ws c \<longleftrightarrow> c = 0x09 \<or> c = 0x0A \<or> c = 0x0D \<or> c = 0x20"

definition is_digit :: "code_unit \<Rightarrow> bool" where
  "is_digit c \<longleftrightarrow> 0x30 \<le> c \<and> c \<le> 0x39"

definition hex_digit :: "code_unit \<Rightarrow> nat option" where
  "hex_digit c =
     (if 0x30 \<le> c \<and> c \<le> 0x39 then Some (unat c - 0x30)
      else if 0x41 \<le> c \<and> c \<le> 0x46 then Some (unat c - 0x41 + 10)
      else if 0x61 \<le> c \<and> c \<le> 0x66 then Some (unat c - 0x61 + 10)
      else None)"

definition hex4 :: "code_unit \<Rightarrow> code_unit \<Rightarrow> code_unit \<Rightarrow> code_unit \<Rightarrow> code_unit option" where
  "hex4 a b c d =
     (case (hex_digit a, hex_digit b, hex_digit c, hex_digit d) of
        (Some w, Some x, Some y, Some z) \<Rightarrow> Some (of_nat (((w * 16 + x) * 16 + y) * 16 + z))
      | _ \<Rightarrow> None)"

text \<open>The escapes \<open>\" \\ \/ \b \f \n \r \t\<close>.\<close>

definition simple_escape :: "code_unit \<Rightarrow> code_unit option" where
  "simple_escape e =
     (if e = 0x22 then Some 0x22
      else if e = 0x5C then Some 0x5C
      else if e = 0x2F then Some 0x2F
      else if e = 0x62 then Some 0x08
      else if e = 0x66 then Some 0x0C
      else if e = 0x6E then Some 0x0A
      else if e = 0x72 then Some 0x0D
      else if e = 0x74 then Some 0x09
      else None)"

text \<open>
  The body of a string literal, after its opening quote: the string and the text after
  the closing quote. Control characters below U+0020 must be escaped.
\<close>

fun lex_string :: "jsstring \<Rightarrow> (jsstring \<times> jsstring) option" where
  "lex_string [] = None"
| "lex_string (c # cs) =
     (if c = 0x22 then Some ([], cs)
      else if c = 0x5C then
        (case cs of
           [] \<Rightarrow> None
         | e # r \<Rightarrow>
             if e = 0x75 then
               (case r of
                  h1 # h2 # h3 # h4 # r' \<Rightarrow>
                    (case hex4 h1 h2 h3 h4 of
                       None \<Rightarrow> None
                     | Some x \<Rightarrow> map_option (\<lambda>(s, t). (x # s, t)) (lex_string r'))
                | _ \<Rightarrow> None)
             else
               (case simple_escape e of
                  None \<Rightarrow> None
                | Some x \<Rightarrow> map_option (\<lambda>(s, t). (x # s, t)) (lex_string r)))
      else if c < 0x20 then None
      else map_option (\<lambda>(s, t). (c # s, t)) (lex_string cs))"

text \<open>
  A number literal: \<open>-? (0 | [1-9][0-9]*) (. [0-9]+)? ([eE] [+-]? [0-9]+)?\<close>.
\<close>

definition digits_value :: "jsstring \<Rightarrow> nat" where
  "digits_value ds = foldl (\<lambda>n d. 10 * n + (unat d - 0x30)) 0 ds"

definition lex_sign :: "jsstring \<Rightarrow> bool \<times> jsstring" where
  "lex_sign s =
     (case s of [] \<Rightarrow> (False, []) | c # r \<Rightarrow> if c = 0x2D then (True, r) else (False, s))"

definition lex_int :: "jsstring \<Rightarrow> (jsstring \<times> jsstring) option" where
  "lex_int s =
     (let ip = takeWhile is_digit s
      in if ip = [] \<or> (hd ip = 0x30 \<and> length ip > 1) then None
         else Some (ip, dropWhile is_digit s))"

definition lex_frac :: "jsstring \<Rightarrow> (jsstring \<times> jsstring) option" where
  "lex_frac s =
     (case s of
        [] \<Rightarrow> Some ([], [])
      | c # r \<Rightarrow>
          if c = 0x2E then
            (let fp = takeWhile is_digit r
             in if fp = [] then None else Some (fp, dropWhile is_digit r))
          else Some ([], s))"

definition lex_exp :: "jsstring \<Rightarrow> (int \<times> jsstring) option" where
  "lex_exp s =
     (case s of
        [] \<Rightarrow> Some (0, [])
      | c # r \<Rightarrow>
          if c = 0x65 \<or> c = 0x45 then
            (let neg = (r \<noteq> [] \<and> hd r = 0x2D);
                 r' = (if r \<noteq> [] \<and> (hd r = 0x2D \<or> hd r = 0x2B) then tl r else r);
                 ep = takeWhile is_digit r'
             in if ep = [] then None
                else Some (if neg then - int (digits_value ep) else int (digits_value ep),
                           dropWhile is_digit r'))
          else Some (0, s))"

definition number_value :: "bool \<Rightarrow> jsstring \<Rightarrow> int \<Rightarrow> rat" where
  "number_value neg ds e =
     (let m = of_nat (digits_value ds);
          q = (if e \<ge> 0 then m * 10 ^ nat e else m / 10 ^ nat (- e))
      in if neg then - q else q)"

definition lex_number :: "jsstring \<Rightarrow> (rat \<times> jsstring) option" where
  "lex_number s =
     (case lex_sign s of (neg, s1) \<Rightarrow>
        (case lex_int s1 of
           None \<Rightarrow> None
         | Some (ip, s2) \<Rightarrow>
             (case lex_frac s2 of
                None \<Rightarrow> None
              | Some (fp, s3) \<Rightarrow>
                  (case lex_exp s3 of
                     None \<Rightarrow> None
                   | Some (e, s4) \<Rightarrow>
                       Some (number_value neg (ip @ fp) (e - int (length fp)), s4)))))"

lemma lex_string_length: "lex_string cs = Some p \<Longrightarrow> length (snd p) \<le> length cs"
proof (induction cs arbitrary: p rule: lex_string.induct)
  case 1
  then show ?case by simp
next
  case (2 c cs)
  then show ?case
    by (fastforce split: if_splits list.splits option.splits)
qed

lemma lex_sign_length: "length (snd (lex_sign s)) \<le> length s"
  by (simp add: lex_sign_def split: list.splits)

lemma lex_int_length: "lex_int s = Some p \<Longrightarrow> length (snd p) < length s"
proof -
  assume a: "lex_int s = Some p"
  then have ne: "takeWhile is_digit s \<noteq> []" and p: "snd p = dropWhile is_digit s"
    by (auto simp: lex_int_def Let_def split: if_splits)
  have "length (takeWhile is_digit s) + length (dropWhile is_digit s) = length s"
    by (metis length_append takeWhile_dropWhile_id)
  moreover from ne have "length (takeWhile is_digit s) > 0" by simp
  ultimately have "length (dropWhile is_digit s) < length s" by linarith
  with p show ?thesis by simp
qed

lemma lex_frac_length: "lex_frac s = Some p \<Longrightarrow> length (snd p) \<le> length s"
  by (auto simp: lex_frac_def Let_def le_SucI length_dropWhile_le split: list.splits if_splits)

lemma lex_exp_length: "lex_exp s = Some p \<Longrightarrow> length (snd p) \<le> length s"
proof -
  have d: "length (dropWhile is_digit (tl r)) \<le> length r" for r :: jsstring
    by (rule order_trans [OF length_dropWhile_le]) simp
  assume "lex_exp s = Some p"
  then show ?thesis
    by (auto simp: lex_exp_def Let_def le_SucI length_dropWhile_le d split: list.splits if_splits)
qed

lemma lex_number_length: "lex_number s = Some p \<Longrightarrow> length (snd p) < length s"
proof -
  assume a: "lex_number s = Some p"
  obtain neg s1 where s1: "lex_sign s = (neg, s1)" by (cases "lex_sign s")
  from a s1 obtain ip s2 where s2: "lex_int s1 = Some (ip, s2)"
    by (auto simp: lex_number_def split: option.splits)
  from a s1 s2 obtain fp s3 where s3: "lex_frac s2 = Some (fp, s3)"
    by (auto simp: lex_number_def split: option.splits)
  from a s1 s2 s3 obtain e s4 where s4: "lex_exp s3 = Some (e, s4)" and p: "snd p = s4"
    by (auto simp: lex_number_def split: option.splits)
  have "length s1 \<le> length s" using lex_sign_length [of s] s1 by simp
  moreover have "length s2 < length s1" using lex_int_length [OF s2] by simp
  moreover have "length s3 \<le> length s2" using lex_frac_length [OF s3] by simp
  moreover have "length s4 \<le> length s3" using lex_exp_length [OF s4] by simp
  ultimately show ?thesis using p by simp
qed

text \<open>The tokens of a text; \<open>None\<close> when some part of it is no JSON token.\<close>

function lex :: "jsstring \<Rightarrow> token list option" where
  "lex [] = Some []"
| "lex (c # cs) =
     (if is_json_ws c then lex cs
      else if c = 0x7B then map_option ((#) LBrace) (lex cs)
      else if c = 0x7D then map_option ((#) RBrace) (lex cs)
      else if c = 0x5B then map_option ((#) LBracket) (lex cs)
      else if c = 0x5D then map_option ((#) RBracket) (lex cs)
      else if c = 0x3A then map_option ((#) Colon) (lex cs)
      else if c = 0x2C then map_option ((#) Comma) (lex cs)
      else if c = 0x22 then
        (case lex_string cs of
           None \<Rightarrow> None
         | Some p \<Rightarrow> map_option ((#) (TString (fst p))) (lex (snd p)))
      else if c = 0x2D \<or> is_digit c then
        (case lex_number (c # cs) of
           None \<Rightarrow> None
         | Some p \<Rightarrow> map_option ((#) (TNumber (fst p))) (lex (snd p)))
      else if take 4 (c # cs) = ascii ''true'' then map_option ((#) TTrue) (lex (drop 4 (c # cs)))
      else if take 5 (c # cs) = ascii ''false'' then map_option ((#) TFalse) (lex (drop 5 (c # cs)))
      else if take 4 (c # cs) = ascii ''null'' then map_option ((#) TNull) (lex (drop 4 (c # cs)))
      else None)"
  by pat_completeness auto
termination
proof (relation "measure length")
  show "wf (measure length)" by simp
qed (auto dest: lex_string_length lex_number_length)

text \<open>
  The grammar over tokens, as a pushdown automaton: a stack of the arrays and objects
  that are open, and what may come next. \<open>FKey ms k\<close> is an object whose key \<open>k\<close>
  waits for its value.
\<close>

datatype frame =
    FArr "json list"
  | FObj "(jsstring \<times> json) list"
  | FKey "(jsstring \<times> json) list" jsstring

datatype expect = XValue | XFirstElem | XFirstKey | XKey | XColon | XSep

datatype pstate = Run expect "frame list" | Finished json

fun reduce :: "json \<Rightarrow> frame list \<Rightarrow> pstate option" where
  "reduce v [] = Some (Finished v)"
| "reduce v (FArr vs # st) = Some (Run XSep (FArr (vs @ [v]) # st))"
| "reduce v (FKey ms k # st) = Some (Run XSep (FObj (AList.update k v ms) # st))"
| "reduce v (FObj ms # st) = None"

fun close_array :: "frame list \<Rightarrow> pstate option" where
  "close_array (FArr vs # st) = reduce (JArr vs) st"
| "close_array _ = None"

fun close_object :: "frame list \<Rightarrow> pstate option" where
  "close_object (FObj ms # st) = reduce (JObj ms) st"
| "close_object _ = None"

fun open_key :: "jsstring \<Rightarrow> frame list \<Rightarrow> pstate option" where
  "open_key k (FObj ms # st) = Some (Run XColon (FKey ms k # st))"
| "open_key k _ = None"

fun next_member :: "frame list \<Rightarrow> pstate option" where
  "next_member (FArr vs # st) = Some (Run XValue (FArr vs # st))"
| "next_member (FObj ms # st) = Some (Run XKey (FObj ms # st))"
| "next_member _ = None"

fun start_value :: "token \<Rightarrow> frame list \<Rightarrow> pstate option" where
  "start_value (TString s) st = reduce (JStr s) st"
| "start_value (TNumber q) st = reduce (JNum q) st"
| "start_value TTrue st = reduce (JBool True) st"
| "start_value TFalse st = reduce (JBool False) st"
| "start_value TNull st = reduce JNull st"
| "start_value LBracket st = Some (Run XFirstElem (FArr [] # st))"
| "start_value LBrace st = Some (Run XFirstKey (FObj [] # st))"
| "start_value _ st = None"

fun step :: "pstate \<Rightarrow> token \<Rightarrow> pstate option" where
  "step (Finished v) t = None"
| "step (Run XValue st) t = start_value t st"
| "step (Run XFirstElem st) t = (if t = RBracket then close_array st else start_value t st)"
| "step (Run XFirstKey st) t =
     (case t of TString k \<Rightarrow> open_key k st | RBrace \<Rightarrow> close_object st | _ \<Rightarrow> None)"
| "step (Run XKey st) t = (case t of TString k \<Rightarrow> open_key k st | _ \<Rightarrow> None)"
| "step (Run XColon st) t = (if t = Colon then Some (Run XValue st) else None)"
| "step (Run XSep st) t =
     (case t of
        Comma \<Rightarrow> next_member st
      | RBracket \<Rightarrow> close_array st
      | RBrace \<Rightarrow> close_object st
      | _ \<Rightarrow> None)"

fun run :: "pstate \<Rightarrow> token list \<Rightarrow> pstate option" where
  "run s [] = Some s"
| "run s (t # ts) = (case step s t of None \<Rightarrow> None | Some s' \<Rightarrow> run s' ts)"

text \<open>\<open>JSON.parse(text)\<close>; \<open>None\<close> is the SyntaxError.\<close>

definition JSON_parse :: "jsstring \<Rightarrow> json option" where
  "JSON_parse text =
     (case lex text of
        None \<Rightarrow> None
      | Some ts \<Rightarrow>
          (case run (Run XValue []) ts of
             Some (Finished v) \<Rightarrow> Some v
           | _ \<Rightarrow> None))"

section \<open>JavaScript values, exceptions and property reads\<close>

text \<open>
  A value that came from JSON, or \<open>undefined\<close> (\<open>None\<close>). An exception is a value:
  every function that can throw returns \<open>exn + 'a\<close>, with \<open>Inl\<close> the exception.
\<close>

datatype exn = TypeError | SyntaxError | Error jsstring

definition and_then :: "exn + 'a \<Rightarrow> ('a \<Rightarrow> exn + 'b) \<Rightarrow> exn + 'b" where
  "and_then m f = (case m of Inl e \<Rightarrow> Inl e | Inr x \<Rightarrow> f x)"

text \<open>
  ToBoolean: \<open>null\<close>, \<open>false\<close>, the empty string and a number whose double is zero are
  falsy, as is \<open>undefined\<close>; every array and object is truthy. A decimal literal rounds
  to the double zero exactly when its magnitude is at most \<open>2 ^ -1075\<close>, half the
  smallest subnormal.
\<close>

fun truthy :: "json \<Rightarrow> bool" where
  "truthy JNull = False"
| "truthy (JBool b) = b"
| "truthy (JNum q) = (1 / 2 ^ 1075 < \<bar>q\<bar>)"
| "truthy (JStr s) = (s \<noteq> [])"
| "truthy (JArr xs) = True"
| "truthy (JObj ms) = True"

definition truthy_opt :: "json option \<Rightarrow> bool" where
  "truthy_opt v = (case v of None \<Rightarrow> False | Some x \<Rightarrow> truthy x)"

text \<open>
  The property read \<open>v.k\<close>, for a name \<open>k\<close> that no built-in prototype defines (the
  names the source reads: \<open>task content choices message error term definition
  correction\<close>): a TypeError on \<open>null\<close> and \<open>undefined\<close>, the own property of an
  object, \<open>undefined\<close> on everything else.
\<close>

fun get_prop :: "json option \<Rightarrow> jsstring \<Rightarrow> exn + json option" where
  "get_prop None k = Inl TypeError"
| "get_prop (Some JNull) k = Inl TypeError"
| "get_prop (Some (JObj ms)) k = Inr (map_of ms k)"
| "get_prop (Some v) k = Inr None"

text \<open>The optional chain \<open>v?.k\<close>: \<open>undefined\<close> where \<open>v.k\<close> would throw.\<close>

definition get_opt :: "json option \<Rightarrow> jsstring \<Rightarrow> json option" where
  "get_opt v k = (case get_prop v k of Inl e \<Rightarrow> None | Inr r \<Rightarrow> r)"

text \<open>The element read \<open>v[0]\<close>.\<close>

fun get_index0 :: "json option \<Rightarrow> exn + json option" where
  "get_index0 None = Inl TypeError"
| "get_index0 (Some JNull) = Inl TypeError"
| "get_index0 (Some (JArr xs)) = Inr (case xs of [] \<Rightarrow> None | x # r \<Rightarrow> Some x)"
| "get_index0 (Some (JStr s)) = Inr (case s of [] \<Rightarrow> None | c # r \<Rightarrow> Some (JStr [c]))"
| "get_index0 (Some (JObj ms)) = Inr (map_of ms (ascii ''0''))"
| "get_index0 (Some v) = Inr None"

text \<open>
  The receiver of a call of a String.prototype method (\<open>split\<close>, \<open>replace\<close>): on a
  value that is no string the method is missing or the read throws, a TypeError
  either way.
\<close>

definition string_receiver :: "json option \<Rightarrow> exn + jsstring" where
  "string_receiver v = (case v of Some (JStr s) \<Rightarrow> Inr s | _ \<Rightarrow> Inl TypeError)"

text \<open>\<open>Array.prototype.every\<close> and \<open>filter\<close> with a callback that may throw.\<close>

fun every :: "('a \<Rightarrow> exn + bool) \<Rightarrow> 'a list \<Rightarrow> exn + bool" where
  "every f [] = Inr True"
| "every f (x # xs) =
     (case f x of Inl e \<Rightarrow> Inl e | Inr b \<Rightarrow> if b then every f xs else Inr False)"

fun filter_js :: "('a \<Rightarrow> exn + bool) \<Rightarrow> 'a list \<Rightarrow> exn + 'a list" where
  "filter_js f [] = Inr []"
| "filter_js f (x # xs) =
     (case f x of
        Inl e \<Rightarrow> Inl e
      | Inr b \<Rightarrow>
          (case filter_js f xs of
             Inl e \<Rightarrow> Inl e
           | Inr ys \<Rightarrow> Inr (if b then x # ys else ys)))"

text \<open>
  What the engine does beyond this model is a parameter: ToString of a value that is
  no string (it throws on an object whose \<open>toString\<close> is not callable), and the
  comparison \<open>v > 50000\<close> of a value that is no length of a string or array.
\<close>

record engine =
  to_string :: "json option \<Rightarrow> exn + jsstring"
  exceeds_50000 :: "json \<Rightarrow> exn + bool"

definition ToString :: "engine \<Rightarrow> json option \<Rightarrow> exn + jsstring" where
  "ToString eng v = (case v of Some (JStr s) \<Rightarrow> Inr s | _ \<Rightarrow> to_string eng v)"

section \<open>The upstream completion adapter\<close>

text \<open>
  One request of \<open>axios.post\<close>: the URL, the model, the two messages and the bearer
  credential (temperature 0.7, max_tokens 1024, top_p 1 and stream false are fixed).
  The service answers the \<open>n\<close>-th request of a run with a 2xx response and its data,
  or the exchange fails: with the data of a response of another status, or with no
  response at all. The world is the list of the requests handed to \<open>axios.post\<close>
  so far, one entry for each call.
\<close>

record request =
  url :: jsstring
  model :: jsstring
  system_message :: jsstring
  user_message :: json
  bearer :: jsstring

datatype http_outcome = Responded json | Failed "json option"

type_synonym upstream = "nat \<Rightarrow> request \<Rightarrow> http_outcome"

record world =
  sent :: "request list"

definition GROQ_API_URL :: jsstring where
  "GROQ_API_URL = ascii ''https://api.groq.com/openai/v1/chat/completions''"

definition MODEL :: jsstring where
  "MODEL = ascii ''llama-3.1-8b-instant''"

text \<open>\<^verbatim>\<open>response.data.choices[0].message.content\<close>\<close>

definition first_choice_content :: "json \<Rightarrow> exn + json option" where
  "first_choice_content data =
     and_then (get_prop (Some data) (ascii ''choices'')) (\<lambda>choices.
     and_then (get_index0 choices) (\<lambda>choice.
     and_then (get_prop choice (ascii ''message'')) (\<lambda>message.
     get_prop message (ascii ''content''))))"

text \<open>
  The catch block:
  \<^verbatim>\<open>throw new Error(error.response?.data?.error?.message || 'AI service error')\<close>,
  on the data of the failed response (\<open>None\<close> when the error carries no response, as
  a network failure or a TypeError of the try block). \<open>new Error(v)\<close> takes ToString
  of \<open>v\<close>, which may throw in its turn.
\<close>

definition upstream_message :: "json option \<Rightarrow> json option" where
  "upstream_message data = get_opt (get_opt data (ascii ''error'')) (ascii ''message'')"

definition upstream_error :: "engine \<Rightarrow> json option \<Rightarrow> exn" where
  "upstream_error eng data =
     (let m = upstream_message data
      in if truthy_opt m
         then (case ToString eng m of Inl e \<Rightarrow> e | Inr s \<Rightarrow> Error s)
         else Error (ascii ''AI service error''))"

text \<open>The request body and headers that \<open>callGroqAPI\<close> hands to \<open>axios.post\<close>.\<close>

definition completion_request :: "jsstring \<Rightarrow> json \<Rightarrow> jsstring \<Rightarrow> request" where
  "completion_request systemPrompt userContent apiKey =
     \<lparr>url = GROQ_API_URL, model = MODEL, system_message = systemPrompt,
      user_message = userContent, bearer = ascii ''Bearer '' @ apiKey\<rparr>"

definition callGroqAPI ::
    "upstream \<Rightarrow> engine \<Rightarrow> jsstring \<Rightarrow> json \<Rightarrow> jsstring \<Rightarrow> world \<Rightarrow> (exn + json option) \<times> world" where
  "callGroqAPI up eng systemPrompt userContent apiKey w =
     (let req = completion_request systemPrompt userContent apiKey;
          w' = w\<lparr>sent := sent w @ [req]\<rparr>
      in case up (length (sent w)) req of
           Responded data \<Rightarrow>
             (case first_choice_content data of
                Inr c \<Rightarrow> (Inr c, w')
              | Inl e \<Rightarrow> (Inl (upstream_error eng None), w'))
         | Failed data \<Rightarrow> (Inl (upstream_error eng data), w'))"

section \<open>The tasks\<close>

definition summarize_prompt :: jsstring where
  "summarize_prompt = ascii ''You are a helpful assistant that creates concise summaries. \<newline>Summarize the given text in 1-2 sentences. Be clear and capture the main points.''"

definition tags_prompt :: jsstring where
  "tags_prompt = ascii ''You are a helpful assistant that suggests relevant tags for notes.\<newline>Analyze the content and suggest 5 relevant, concise tags (single words or short phrases).\<newline>Return ONLY a comma-separated list of tags, nothing else.\<newline>Example output: productivity, meeting, project, deadline, team''"

definition grammar_prompt :: jsstring where
  "grammar_prompt = ascii ''You are a grammar and spelling expert.\<newline>Fix any grammar, spelling, or punctuation errors in the given text.\<newline>Preserve the original meaning and style as much as possible.\<newline>If the text is already correct, return it unchanged.\<newline>Return ONLY the corrected text, no explanations.''"

definition glossary_prompt :: jsstring where
  \<open>glossary_prompt = ascii ''You are a helpful assistant that identifies key technical or important terms in text.\<newline>Analyze the content and identify up to 5 key terms that would benefit from definitions.\<newline>Return your response as a valid JSON array with this exact format:\<newline>[{"term": "example term", "definition": "brief definition"}]\<newline>\<newline>Rules:\<newline>- Return ONLY valid JSON, nothing else\<newline>- Include 3-5 terms maximum\<newline>- Keep definitions concise (under 20 words)\<newline>- Focus on technical, domain-specific, or uncommon terms''\<close>

definition grammar_errors_prompt :: jsstring where
  \<open>grammar_errors_prompt = ascii ''You are a grammar expert. Analyze the text and find grammar/spelling errors.\<newline>Return a JSON array of error objects. Each object must have "error" (the mistake) and "correction" (the fix).\<newline>Example: [{"error": "your wrong", "correction": "you're wrong"}, {"error": "its good", "correction": "it's good"}]\<newline>If no errors found, return an empty array: []\<newline>Return ONLY valid JSON, nothing else.''\<close>

definition summarizeText ::
    "upstream \<Rightarrow> engine \<Rightarrow> json \<Rightarrow> jsstring \<Rightarrow> world \<Rightarrow> (exn + json option) \<times> world" where
  "summarizeText up eng content apiKey w = callGroqAPI up eng summarize_prompt content apiKey w"

definition checkGrammar ::
    "upstream \<Rightarrow> engine \<Rightarrow> json \<Rightarrow> jsstring \<Rightarrow> world \<Rightarrow> (exn + json option) \<times> world" where
  "checkGrammar up eng content apiKey w = callGroqAPI up eng grammar_prompt content apiKey w"

subsection \<open>Tags\<close>

text \<open>
  \<^verbatim>\<open>response.split(',').map(tag => tag.trim()).filter(tag => tag.length > 0).slice(0, 5)\<close>
  on a completion that is a string.
\<close>

definition suggestTags_parse :: "jsstring \<Rightarrow> jsstring list" where
  "suggestTags_parse response =
     take 5 (filter (\<lambda>tag. length tag > 0) (map trim (split_on comma response)))"

text \<open>The same on whatever the adapter returned: outside any try block.\<close>

definition suggestTags_post :: "json option \<Rightarrow> exn + json option" where
  "suggestTags_post response =
     and_then (string_receiver response) (\<lambda>s. Inr (Some (JArr (map JStr (suggestTags_parse s)))))"

definition suggestTags ::
    "upstream \<Rightarrow> engine \<Rightarrow> json \<Rightarrow> jsstring \<Rightarrow> world \<Rightarrow> (exn + json option) \<times> world" where
  "suggestTags up eng content apiKey w =
     (case callGroqAPI up eng tags_prompt content apiKey w of
        (r, w') \<Rightarrow> (and_then r suggestTags_post, w'))"

subsection \<open>Code fences\<close>

text \<open>
  \<open>s.replace(/F\n?/g, '')\<close> for a fence \<open>F\<close> of literal characters: every match, found
  from left to right, is the fence and the newline after it when there is one.
\<close>

definition drop_newline :: "jsstring \<Rightarrow> jsstring" where
  "drop_newline s = (case s of [] \<Rightarrow> [] | c # r \<Rightarrow> if c = 0x0A then r else s)"

lemma length_drop_newline: "length (drop_newline s) \<le> length s"
  by (simp add: drop_newline_def split: list.splits)

function remove_fence :: "jsstring \<Rightarrow> jsstring \<Rightarrow> jsstring" where
  "remove_fence fence [] = []"
| "remove_fence fence (c # cs) =
     (if fence \<noteq> [] \<and> take (length fence) (c # cs) = fence
      then remove_fence fence (drop_newline (drop (length fence) (c # cs)))
      else c # remove_fence fence cs)"
  by pat_completeness auto
termination
proof (relation "measure (\<lambda>(fence, s). length s)")
  show "wf (measure (\<lambda>(fence, s). length s))" by simp
next
  fix fence :: jsstring and c cs
  assume "fence \<noteq> [] \<and> take (length fence) (c # cs) = fence"
  then have "length (drop (length fence) (c # cs)) < length (c # cs)" by simp
  then have "length (drop_newline (drop (length fence) (c # cs))) < length (c # cs)"
    by (rule le_less_trans [OF length_drop_newline])
  then show "((fence, drop_newline (drop (length fence) (c # cs))), (fence, c # cs))
      \<in> measure (\<lambda>(fence, s). length s)" by simp
qed simp

text \<open>
  \<^verbatim>\<open>response.replace(/```json\n?/g, '').replace(/```\n?/g, '').trim()\<close>
\<close>

definition cleanedResponse :: "jsstring \<Rightarrow> jsstring" where
  "cleanedResponse response =
     trim (remove_fence (ascii ''```'') (remove_fence (ascii ''```json'') response))"

subsection \<open>Glossary\<close>

text \<open>The callback \<^verbatim>\<open>item => item.term && item.definition\<close>, as \<open>every\<close> reads it.\<close>

definition has_term_and_definition :: "json \<Rightarrow> exn + bool" where
  "has_term_and_definition item =
     and_then (get_prop (Some item) (ascii ''term'')) (\<lambda>t.
       if truthy_opt t
       then and_then (get_prop (Some item) (ascii ''definition'')) (\<lambda>d. Inr (truthy_opt d))
       else Inr False)"

text \<open>The try block of generateGlossary, on whatever the adapter returned.\<close>

definition glossary_try :: "json option \<Rightarrow> exn + json" where
  "glossary_try response =
     and_then (string_receiver response) (\<lambda>s.
       case JSON_parse (cleanedResponse s) of
         None \<Rightarrow> Inl SyntaxError
       | Some glossary \<Rightarrow>
           (case glossary of
              JArr items \<Rightarrow>
                and_then (every has_term_and_definition items) (\<lambda>ok.
                  if ok then Inr glossary else Inl (Error (ascii ''Invalid glossary format'')))
            | _ \<Rightarrow> Inl (Error (ascii ''Invalid glossary format''))))"

text \<open>The try with its catch, which returns the empty array.\<close>

definition generateGlossary_post :: "json option \<Rightarrow> exn + json option" where
  "generateGlossary_post response =
     (case glossary_try response of Inl e \<Rightarrow> Inr (Some (JArr [])) | Inr g \<Rightarrow> Inr (Some g))"

definition generateGlossary ::
    "upstream \<Rightarrow> engine \<Rightarrow> json \<Rightarrow> jsstring \<Rightarrow> world \<Rightarrow> (exn + json option) \<times> world" where
  "generateGlossary up eng content apiKey w =
     (case callGroqAPI up eng glossary_prompt content apiKey w of
        (r, w') \<Rightarrow> (and_then r generateGlossary_post, w'))"

subsection \<open>Grammar errors\<close>

text \<open>The callback \<^verbatim>\<open>item => item.error && item.correction\<close>, as \<open>filter\<close> reads it.\<close>

definition has_error_and_correction :: "json \<Rightarrow> exn + bool" where
  "has_error_and_correction item =
     and_then (get_prop (Some item) (ascii ''error'')) (\<lambda>e.
       if truthy_opt e
       then and_then (get_prop (Some item) (ascii ''correction'')) (\<lambda>c. Inr (truthy_opt c))
       else Inr False)"

definition grammar_errors_try :: "json option \<Rightarrow> exn + json" where
  "grammar_errors_try response =
     and_then (string_receiver response) (\<lambda>s.
       case JSON_parse (cleanedResponse s) of
         None \<Rightarrow> Inl SyntaxError
       | Some errors \<Rightarrow>
           (case errors of
              JArr items \<Rightarrow>
                and_then (filter_js has_error_and_correction items) (\<lambda>kept. Inr (JArr kept))
            | _ \<Rightarrow> Inr (JArr [])))"

definition findGrammarErrors_post :: "json option \<Rightarrow> exn + json option" where
  "findGrammarErrors_post response =
     (case grammar_errors_try response of Inl e \<Rightarrow> Inr (Some (JArr [])) | Inr g \<Rightarrow> Inr (Some g))"

definition findGrammarErrors ::
    "upstream \<Rightarrow> engine \<Rightarrow> json \<Rightarrow> jsstring \<Rightarrow> world \<Rightarrow> (exn + json option) \<times> world" where
  "findGrammarErrors up eng content apiKey w =
     (case callGroqAPI up eng grammar_errors_prompt content apiKey w of
        (r, w') \<Rightarrow> (and_then r findGrammarErrors_post, w'))"

section \<open>The route POST /api/ai\<close>

text \<open>
  The reply: the status and the JSON body, which is \<open>{success: false, error}\<close>,
  \<open>{success: true, task, data}\<close>, or the catch block's
  \<open>{success: false, error: error.message || '...', task: req.body.task}\<close> (held as the
  exception caught and the task).
\<close>

datatype reply_body =
    ErrorBody jsstring
  | SuccessBody "json option" "json option"
  | FailureBody exn "json option"

record reply =
  status :: nat
  payload :: reply_body

text \<open>
  \<^verbatim>\<open>!!GROQ_API_KEY && GROQ_API_KEY !== 'your_groq_api_key_here'\<close>, the
  \<open>hasApiKey\<close> of the health route; the handler below tests its negation.
\<close>

definition hasApiKey :: "jsstring option \<Rightarrow> bool" where
  "hasApiKey k =
     (case k of None \<Rightarrow> False | Some s \<Rightarrow> s \<noteq> [] \<and> s \<noteq> ascii ''your_groq_api_key_here'')"

text \<open>\<^verbatim>\<open>content.length > 50000\<close>, on a truthy content.\<close>

definition content_too_large :: "engine \<Rightarrow> json \<Rightarrow> exn + bool" where
  "content_too_large eng content =
     (case content of
        JStr s \<Rightarrow> Inr (length s > 50000)
      | JArr xs \<Rightarrow> Inr (length xs > 50000)
      | JObj ms \<Rightarrow>
          (case map_of ms (ascii ''length'') of
             None \<Rightarrow> Inr False
           | Some v \<Rightarrow> exceeds_50000 eng v)
      | _ \<Rightarrow> Inr False)"

text \<open>
  The template of the first \<open>console.log\<close> takes ToString of the task and of
  \<open>content.length\<close> (a number or \<open>undefined\<close>, but for an object with a \<open>length\<close> of
  its own); the result is the task's text.
\<close>

definition log_request :: "engine \<Rightarrow> json \<Rightarrow> json \<Rightarrow> exn + jsstring" where
  "log_request eng task content =
     and_then (ToString eng (Some task)) (\<lambda>task_text.
       case content of
         JObj ms \<Rightarrow>
           (case map_of ms (ascii ''length'') of
              None \<Rightarrow> Inr task_text
            | Some v \<Rightarrow> and_then (ToString eng (Some v)) (\<lambda>t. Inr task_text))
       | _ \<Rightarrow> Inr task_text)"

definition unknown_task_message :: "jsstring \<Rightarrow> jsstring" where
  "unknown_task_message task_text =
     ascii ''Unknown task: '' @ task_text
       @ ascii ''. Valid tasks are: summarize, tags, grammar, glossary''"

definition respond :: "json \<Rightarrow> (exn + json option) \<times> world \<Rightarrow> (exn + reply) \<times> world" where
  "respond task r =
     (case r of
        (Inl e, w') \<Rightarrow> (Inl e, w')
      | (Inr result, w') \<Rightarrow> (Inr \<lparr>status = 200, payload = SuccessBody (Some task) result\<rparr>, w'))"

text \<open>The try block from the size check on, for a truthy task and content.\<close>

definition dispatch ::
    "upstream \<Rightarrow> engine \<Rightarrow> jsstring \<Rightarrow> json \<Rightarrow> json \<Rightarrow> world \<Rightarrow> (exn + reply) \<times> world" where
  "dispatch up eng apiKey task content w =
     (case content_too_large eng content of
        Inl e \<Rightarrow> (Inl e, w)
      | Inr large \<Rightarrow>
          if large then
            (Inr \<lparr>status = 400,
                  payload = ErrorBody (ascii ''Content too large. Maximum 50,000 characters allowed.'')\<rparr>, w)
          else
            (case log_request eng task content of
               Inl e \<Rightarrow> (Inl e, w)
             | Inr task_text \<Rightarrow>
                 if task = JStr (ascii ''summarize'') then
                   respond task (summarizeText up eng content apiKey w)
                 else if task = JStr (ascii ''tags'') then
                   respond task (suggestTags up eng content apiKey w)
                 else if task = JStr (ascii ''grammar'') then
                   respond task (checkGrammar up eng content apiKey w)
                 else if task = JStr (ascii ''glossary'') then
                   respond task (generateGlossary up eng content apiKey w)
                 else
                   (Inr \<lparr>status = 400, payload = ErrorBody (unknown_task_message task_text)\<rparr>, w)))"

text \<open>
  The handler. \<open>express.json()\<close> hands it the parsed body, an object or an array
  (\<open>{}\<close> when the request has none), so the two reads of the destructuring do not
  throw. \<open>GROQ_API_KEY\<close> is \<open>process.env.GROQ_API_KEY\<close>, \<open>None\<close> when unset.
\<close>

definition post_api_ai ::
    "jsstring option \<Rightarrow> upstream \<Rightarrow> engine \<Rightarrow> json \<Rightarrow> world \<Rightarrow> reply \<times> world" where
  "post_api_ai GROQ_API_KEY up eng req_body w =
     (let task = get_opt (Some req_body) (ascii ''task'');
          content = get_opt (Some req_body) (ascii ''content'')
      in case (task, content) of
           (Some t, Some c) \<Rightarrow>
             if \<not> truthy t \<or> \<not> truthy c then
               (\<lparr>status = 400,
                 payload = ErrorBody (ascii ''Missing required fields: task and content'')\<rparr>, w)
             else
               (case GROQ_API_KEY of
                  Some k \<Rightarrow>
                    if k = [] \<or> k = ascii ''your_groq_api_key_here'' then
                      (\<lparr>status = 500,
                        payload = ErrorBody (ascii ''AI service not configured. Please set GROQ_API_KEY in environment variables.'')\<rparr>, w)
                    else
                      (case dispatch up eng k t c w of
                         (Inl e, w') \<Rightarrow> (\<lparr>status = 500, payload = FailureBody e task\<rparr>, w')
                       | (Inr r, w') \<Rightarrow> (r, w'))
                | None \<Rightarrow>
                    (\<lparr>status = 500,
                      payload = ErrorBody (ascii ''AI service not configured. Please set GROQ_API_KEY in environment variables.'')\<rparr>, w))
         | _ \<Rightarrow>
             (\<lparr>status = 400,
               payload = ErrorBody (ascii ''Missing required fields: task and content'')\<rparr>, w))"

section \<open>Vocabulary of the properties\<close>

text \<open>
  What an element of a parsed glossary, or of a parsed list of grammar errors, must
  hold to pass: both fields present and truthy, read with the optional chain (a
  field of \<open>null\<close> is absent).
\<close>

definition term_and_definition_truthy :: "json \<Rightarrow> bool" where
  "term_and_definition_truthy item \<longleftrightarrow>
     truthy_opt (get_opt (Some item) (ascii ''term''))
     \<and> truthy_opt (get_opt (Some item) (ascii ''definition''))"

definition error_and_correction_truthy :: "json \<Rightarrow> bool" where
  "error_and_correction_truthy item \<longleftrightarrow>
     truthy_opt (get_opt (Some item) (ascii ''error''))
     \<and> truthy_opt (get_opt (Some item) (ascii ''correction''))"

text \<open>
  A completion wrapped in a markdown fence: the opening line, with the language tag or
  without, the text, the closing line.
\<close>

definition fenced :: "jsstring \<Rightarrow> jsstring" where
  "fenced b = ascii ''```json\<newline>'' @ b @ ascii ''\<newline>```''"

definition fenced_plain :: "jsstring \<Rightarrow> jsstring" where
  "fenced_plain b = ascii ''```\<newline>'' @ b @ ascii ''\<newline>```''"

text \<open>The message of the first choice, read with the optional chain \<open>data?.choices?.[0]?.message\<close>.\<close>

definition first_choice_message :: "json \<Rightarrow> json option" where
  "first_choice_message data =
     (case get_index0 (get_opt (Some data) (ascii ''choices'')) of
        Inl e \<Rightarrow> None
      | Inr choice \<Rightarrow> get_opt choice (ascii ''message''))"

text \<open>The two fields of a request body, the task enumeration and the fixed replies.\<close>

definition request_task :: "json \<Rightarrow> json option" where
  "request_task req_body = get_opt (Some req_body) (ascii ''task'')"

definition request_content :: "json \<Rightarrow> json option" where
  "request_content req_body = get_opt (Some req_body) (ascii ''content'')"

definition valid_tasks :: "json option set" where
  "valid_tasks = {Some (JStr (ascii ''summarize'')), Some (JStr (ascii ''tags'')),
                  Some (JStr (ascii ''grammar'')), Some (JStr (ascii ''glossary''))}"

definition missing_fields_reply :: reply where
  "missing_fields_reply =
     \<lparr>status = 400, payload = ErrorBody (ascii ''Missing required fields: task and content'')\<rparr>"

definition not_configured_reply :: reply where
  "not_configured_reply =
     \<lparr>status = 500,
      payload = ErrorBody (ascii ''AI service not configured. Please set GROQ_API_KEY in environment variables.'')\<rparr>"

definition too_large_reply :: reply where
  "too_large_reply =
     \<lparr>status = 400, payload = ErrorBody (ascii ''Content too large. Maximum 50,000 characters allowed.'')\<rparr>"

text \<open>
  The four routed task kinds, each with its prompt, its function of the source and
  its normalizer: what the function does to the completion the adapter returned.
\<close>

datatype task_kind = Summarize | Tags | Grammar | Glossary

fun task_prompt :: "task_kind \<Rightarrow> jsstring" where
  "task_prompt Summarize = summarize_prompt"
| "task_prompt Tags = tags_prompt"
| "task_prompt Grammar = grammar_prompt"
| "task_prompt Glossary = glossary_prompt"

fun run_task ::
    "task_kind \<Rightarrow> upstream \<Rightarrow> engine \<Rightarrow> json \<Rightarrow> jsstring \<Rightarrow> world \<Rightarrow> (exn + json option) \<times> world" where
  "run_task Summarize = summarizeText"
| "run_task Tags = suggestTags"
| "run_task Grammar = checkGrammar"
| "run_task Glossary = generateGlossary"

fun normalize :: "task_kind \<Rightarrow> json option \<Rightarrow> exn + json option" where
  "normalize Summarize raw = Inr raw"
| "normalize Tags raw = suggestTags_post raw"
| "normalize Grammar raw = Inr raw"
| "normalize Glossary raw = generateGlossary_post raw"

text \<open>
  Concrete upstreams and engines for the examples: a service that gives every request
  the same outcome, one that answers only its \<open>i\<close>-th request, an engine whose
  ToString throws on every value that is no string, and one that never throws.
\<close>

definition always :: "http_outcome \<Rightarrow> upstream" where
  "always out = (\<lambda>n r. out)"

definition answer_nth :: "nat \<Rightarrow> http_outcome \<Rightarrow> upstream" where
  "answer_nth i out = (\<lambda>n r. if n = i then out else Failed None)"

definition strict_engine :: engine where
  "strict_engine = \<lparr>to_string = (\<lambda>v. Inl TypeError), exceeds_50000 = (\<lambda>v. Inr False)\<rparr>"

definition lenient_engine :: engine where
  "lenient_engine = \<lparr>to_string = (\<lambda>v. Inr []), exceeds_50000 = (\<lambda>v. Inr True)\<rparr>"

lemma always_apply [simp]: "always out n r = out"
  by (simp add: always_def)

lemma answer_nth_apply [simp]: "answer_nth i out n r = (if n = i then out else Failed None)"
  by (simp add: answer_nth_def)

lemma strict_engine_sel [simp]:
  "to_string strict_engine v = Inl TypeError" "exceeds_50000 strict_engine x = Inr False"
  by (simp_all add: strict_engine_def)

lemma lenient_engine_sel [simp]:
  "to_string lenient_engine v = Inr []" "exceeds_50000 lenient_engine x = Inr True"
  by (simp_all add: lenient_engine_def)

text \<open>The unfoldings that evaluate the string operations and the parser on a literal.\<close>

lemmas js_eval =
  ascii_def is_js_space_def trim_def comma_def Let_def
  is_json_ws_def is_digit_def hex_digit_def hex4_def simple_escape_def digits_value_def
  lex_sign_def lex_int_def lex_frac_def lex_exp_def number_value_def lex_number_def
  JSON_parse_def drop_newline_def cleanedResponse_def

lemmas route_eval =
  request_task_def request_content_def get_opt_def truthy_opt_def ascii_def valid_tasks_def
  hasApiKey_def

section \<open>Properties of the string operations\<close>

lemma split_on_nonempty: "split_on sep s \<noteq> []"
  by (induction s) (simp_all add: Let_def)

lemma join_with_Cons:
  "ps \<noteq> [] \<Longrightarrow> join_with sep (p # ps) = p @ sep # join_with sep ps"
  by (cases ps) simp_all

lemma join_with_Cons_hd:
  "ps \<noteq> [] \<Longrightarrow> join_with sep ((c # hd ps) # tl ps) = c # join_with sep ps"
proof (cases ps)
  case Nil
  then show "ps \<noteq> [] \<Longrightarrow> ?thesis" by simp
next
  case (Cons p qs)
  then show ?thesis by (cases qs) simp_all
qed

lemma join_split_on: "join_with sep (split_on sep s) = s"
proof (induction s)
  case Nil
  show ?case by simp
next
  case (Cons c cs)
  show ?case
  proof (cases "c = sep")
    case True
    with Cons show ?thesis
      by (simp add: Let_def join_with_Cons split_on_nonempty)
  next
    case False
    with Cons show ?thesis
      by (simp add: Let_def join_with_Cons_hd split_on_nonempty)
  qed
qed

lemma split_on_no_sep: "list_all (\<lambda>p. sep \<notin> set p) (split_on sep s)"
proof (induction s)
  case Nil
  show ?case by simp
next
  case (Cons c cs)
  obtain p ps where r: "split_on sep cs = p # ps"
    using split_on_nonempty [of sep cs] by (cases "split_on sep cs") auto
  with Cons show ?case by (auto simp: Let_def)
qed

lemma trim_no_space_hd: "trim s \<noteq> [] \<Longrightarrow> \<not> is_js_space (hd (trim s))"
proof -
  let ?d = "dropWhile is_js_space s"
  assume ne: "trim s \<noteq> []"
  have d: "?d \<noteq> []"
  proof
    assume e: "?d = []"
    have "trim s = rev (dropWhile is_js_space (rev []))"
      by (simp only: trim_def e)
    with ne show False by simp
  qed
  then have h: "\<not> is_js_space (hd ?d)" by (rule hd_dropWhile)
  have "rev (dropWhile is_js_space (rev ?d)) @ rev (takeWhile is_js_space (rev ?d)) = ?d"
    by (metis rev_append rev_rev_ident takeWhile_dropWhile_id)
  then have "?d = trim s @ rev (takeWhile is_js_space (rev ?d))"
    by (simp only: trim_def)
  then have "hd ?d = hd (trim s @ rev (takeWhile is_js_space (rev ?d)))"
    by (rule arg_cong)
  with ne have "hd ?d = hd (trim s)" by simp
  with h show ?thesis by simp
qed

lemma trim_no_space_last: "trim s \<noteq> [] \<Longrightarrow> \<not> is_js_space (last (trim s))"
proof -
  let ?r = "dropWhile is_js_space (rev (dropWhile is_js_space s))"
  assume "trim s \<noteq> []"
  then have ne: "?r \<noteq> []" by (simp add: trim_def)
  then have "\<not> is_js_space (hd ?r)" by (rule hd_dropWhile)
  moreover from ne have "last (rev ?r) = hd ?r" by (simp add: last_rev)
  ultimately show ?thesis by (simp add: trim_def)
qed

lemma trim_subset: "set (trim s) \<subseteq> set s"
  by (auto simp: trim_def dest!: set_dropWhileD)

lemma suggestTags_parse_each:
  "list_all (\<lambda>tag. tag \<noteq> [] \<and> comma \<notin> set tag
      \<and> \<not> is_js_space (hd tag) \<and> \<not> is_js_space (last tag)) (suggestTags_parse response)"
proof -
  have "tag \<noteq> [] \<and> comma \<notin> set tag \<and> \<not> is_js_space (hd tag) \<and> \<not> is_js_space (last tag)"
    if "tag \<in> set (suggestTags_parse response)" for tag
  proof -
    from that have "tag \<in> set (filter (\<lambda>tag. length tag > 0) (map trim (split_on comma response)))"
      unfolding suggestTags_parse_def by (rule in_set_takeD)
    then obtain p where p: "p \<in> set (split_on comma response)" and t: "tag = trim p"
      and ne: "tag \<noteq> []" by auto
    from p have "comma \<notin> set p"
      using split_on_no_sep [of comma response] by (simp add: list_all_iff)
    with t have "comma \<notin> set tag" using trim_subset [of p] by auto
    with t ne show ?thesis
      using trim_no_space_hd [of p] trim_no_space_last [of p] by simp
  qed
  then show ?thesis by (simp add: list_all_iff)
qed

lemma suggestTags_parse_example:
  "suggestTags_parse (ascii ''alpha, beta ,gamma,,delta, epsilon, zeta'')
     = map ascii [''alpha'', ''beta'', ''gamma'', ''delta'', ''epsilon'']"
  by (simp add: suggestTags_parse_def ascii_def comma_def trim_def is_js_space_def Let_def)

text \<open>
  C2. For every raw completion string, the tags normalizer returns, as the array of
  suggestTags, the pieces between commas (the pieces joined by commas are the
  completion, and no piece holds a comma), each trimmed, the empty ones dropped, cut
  to the first 5 in order and never padded:
  the result has \<open>min 5 n\<close> entries where \<open>n\<close> tags are left after dropping, each entry
  is non-empty, holds no comma and neither starts nor ends with whitespace. The
  completion \<open>alpha, beta ,gamma,,delta, epsilon, zeta\<close> gives alpha, beta, gamma, delta,
  epsilon.
\<close>

theorem suggestTags_parse_spec:
  "suggestTags_post (Some (JStr response))
       = Inr (Some (JArr (map JStr (suggestTags_parse response))))
   \<and> join_with comma (split_on comma response) = response
   \<and> list_all (\<lambda>p. comma \<notin> set p) (split_on comma response)
   \<and> suggestTags_parse response
       = take 5 (filter (\<lambda>t. t \<noteq> []) (map trim (split_on comma response)))
   \<and> length (suggestTags_parse response)
       = min 5 (length (filter (\<lambda>t. t \<noteq> []) (map trim (split_on comma response))))
   \<and> length (suggestTags_parse response) \<le> 5
   \<and> list_all (\<lambda>tag. tag \<noteq> [] \<and> comma \<notin> set tag
        \<and> \<not> is_js_space (hd tag) \<and> \<not> is_js_space (last tag)) (suggestTags_parse response)
   \<and> suggestTags_parse (ascii ''alpha, beta ,gamma,,delta, epsilon, zeta'')
       = map ascii [''alpha'', ''beta'', ''gamma'', ''delta'', ''epsilon'']"
proof -
  have eq: "suggestTags_parse response
       = take 5 (filter (\<lambda>t. t \<noteq> []) (map trim (split_on comma response)))"
    by (simp add: suggestTags_parse_def)
  then have len: "length (suggestTags_parse response)
       = min 5 (length (filter (\<lambda>t. t \<noteq> []) (map trim (split_on comma response))))"
    by (simp add: min.commute)
  from len have le: "length (suggestTags_parse response) \<le> 5" by simp
  have post: "suggestTags_post (Some (JStr response))
       = Inr (Some (JArr (map JStr (suggestTags_parse response))))"
    by (simp add: suggestTags_post_def string_receiver_def and_then_def)
  show ?thesis
    using post join_split_on [of comma response] split_on_no_sep [of comma response] eq len le
      suggestTags_parse_each [of response] suggestTags_parse_example
    by blast
qed

section \<open>The glossary normalizer\<close>

lemma has_term_and_definition_cases:
  "has_term_and_definition item =
     (if item = JNull then Inl TypeError else Inr (term_and_definition_truthy item))"
  by (cases item)
     (simp_all add: has_term_and_definition_def term_and_definition_truthy_def and_then_def
        get_opt_def truthy_opt_def)

lemma every_has_term_and_definition:
  "every has_term_and_definition items = Inr True \<longleftrightarrow> list_all term_and_definition_truthy items"
proof (induction items)
  case Nil
  show ?case by simp
next
  case (Cons item items)
  show ?case
  proof (cases "item = JNull")
    case True
    then show ?thesis
      by (simp add: has_term_and_definition_cases term_and_definition_truthy_def get_opt_def
            truthy_opt_def)
  next
    case False
    with Cons show ?thesis by (simp add: has_term_and_definition_cases)
  qed
qed

lemma generateGlossary_post_string:
  "generateGlossary_post (Some (JStr response)) =
     Inr (Some (case JSON_parse (cleanedResponse response) of
                  Some (JArr items) \<Rightarrow>
                    if list_all term_and_definition_truthy items then JArr items else JArr []
                | _ \<Rightarrow> JArr []))"
proof (cases "JSON_parse (cleanedResponse response)")
  case None
  then show ?thesis
    by (simp add: generateGlossary_post_def glossary_try_def string_receiver_def and_then_def)
next
  case (Some g)
  show ?thesis
  proof (cases g)
    case (JArr items)
    show ?thesis
    proof (cases "every has_term_and_definition items")
      case (Inl e)
      then have "\<not> list_all term_and_definition_truthy items"
        using every_has_term_and_definition [of items] by simp
      with Some JArr Inl show ?thesis
        by (simp add: generateGlossary_post_def glossary_try_def string_receiver_def and_then_def)
    next
      case (Inr ok)
      then have "ok \<longleftrightarrow> list_all term_and_definition_truthy items"
        using every_has_term_and_definition [of items] by auto
      with Some JArr Inr show ?thesis
        by (simp add: generateGlossary_post_def glossary_try_def string_receiver_def and_then_def)
    qed
  qed (use Some in \<open>simp_all add: generateGlossary_post_def glossary_try_def
         string_receiver_def and_then_def\<close>)
qed

lemma generateGlossary_post_returns: "\<exists>g. generateGlossary_post raw = Inr (Some g)"
  by (cases "glossary_try raw") (simp_all add: generateGlossary_post_def)

subsection \<open>Fences\<close>

lemma remove_fence_no_backtick:
  assumes "fence \<noteq> []" and "hd fence = 0x60" and "0x60 \<notin> set s"
  shows "remove_fence fence (s @ t) = s @ remove_fence fence t"
  using assms(3)
proof (induction s)
  case Nil
  show ?case by simp
next
  case (Cons c s)
  then have c: "c \<noteq> 0x60" by auto
  have "take (length fence) (c # s @ t) \<noteq> fence"
  proof
    assume e: "take (length fence) (c # s @ t) = fence"
    from assms(1) obtain f fs where f: "fence = f # fs" by (cases fence) auto
    with e have "f = c" by simp
    with f assms(2) c show False by simp
  qed
  with Cons show ?case by simp
qed

lemma trim_snoc_space:
  assumes "is_js_space c"
  shows "trim (s @ [c]) = trim s"
proof (cases "\<forall>x \<in> set s. is_js_space x")
  case True
  with assms have a: "dropWhile is_js_space (s @ [c]) = []"
    by (simp add: dropWhile_eq_Nil_conv)
  from True have b: "dropWhile is_js_space s = []"
    by (simp add: dropWhile_eq_Nil_conv)
  show ?thesis by (simp only: trim_def a b)
next
  case False
  then obtain x where "x \<in> set s" "\<not> is_js_space x" by blast
  then have "dropWhile is_js_space (s @ [c]) = dropWhile is_js_space s @ [c]"
    by (rule dropWhile_append1)
  with assms show ?thesis by (simp add: trim_def)
qed

lemma cleanedResponse_no_backtick:
  assumes "0x60 \<notin> set b"
  shows "cleanedResponse b = trim b"
proof -
  have "remove_fence fence (b @ []) = b @ remove_fence fence []"
    if "fence \<noteq> []" "hd fence = 0x60" for fence
    using that assms by (rule remove_fence_no_backtick)
  then have "remove_fence fence b = b" if "fence \<noteq> []" "hd fence = 0x60" for fence
    using that by simp
  then show ?thesis by (simp add: cleanedResponse_def ascii_def)
qed

lemma cleanedResponse_fenced:
  assumes "0x60 \<notin> set b"
  shows "cleanedResponse (fenced b) = trim b"
proof -
  let ?close = "[0x0A, 0x60, 0x60, 0x60] :: jsstring"
  have o: "remove_fence (ascii ''```json'') (fenced b)
      = remove_fence (ascii ''```json'') (b @ ?close)"
    by (simp add: fenced_def ascii_def drop_newline_def)
  have "remove_fence (ascii ''```json'') (b @ ?close)
      = b @ remove_fence (ascii ''```json'') ?close"
    using assms by (intro remove_fence_no_backtick) (simp_all add: ascii_def)
  also have "\<dots> = b @ ?close" by (simp add: ascii_def)
  finally have one: "remove_fence (ascii ''```json'') (fenced b) = b @ ?close"
    using o by simp
  have "remove_fence (ascii ''```'') (b @ ?close) = b @ remove_fence (ascii ''```'') ?close"
    using assms by (intro remove_fence_no_backtick) (simp_all add: ascii_def)
  also have "\<dots> = b @ [0x0A]" by (simp add: ascii_def drop_newline_def)
  finally have two: "remove_fence (ascii ''```'') (b @ ?close) = b @ [0x0A]" .
  have "is_js_space 0x0A" by (simp add: is_js_space_def)
  then show ?thesis
    by (simp add: cleanedResponse_def one two trim_snoc_space)
qed

lemma cleanedResponse_fenced_plain:
  assumes "0x60 \<notin> set b"
  shows "cleanedResponse (fenced_plain b) = trim b"
proof -
  let ?close = "[0x0A, 0x60, 0x60, 0x60] :: jsstring"
  have "remove_fence (ascii ''```json'') (b @ ?close)
      = b @ remove_fence (ascii ''```json'') ?close"
    using assms by (intro remove_fence_no_backtick) (simp_all add: ascii_def)
  also have "\<dots> = b @ ?close" by (simp add: ascii_def)
  finally have inner: "remove_fence (ascii ''```json'') (b @ ?close) = b @ ?close" .
  have one: "remove_fence (ascii ''```json'') (fenced_plain b) = fenced_plain b"
    using inner by (simp add: fenced_plain_def ascii_def)
  have "remove_fence (ascii ''```'') (b @ ?close) = b @ remove_fence (ascii ''```'') ?close"
    using assms by (intro remove_fence_no_backtick) (simp_all add: ascii_def)
  also have "\<dots> = b @ [0x0A]" by (simp add: ascii_def drop_newline_def)
  finally have two: "remove_fence (ascii ''```'') (b @ ?close) = b @ [0x0A]" .
  have three: "remove_fence (ascii ''```'') (fenced_plain b) = b @ [0x0A]"
    using two by (simp add: fenced_plain_def ascii_def drop_newline_def)
  have "is_js_space 0x0A" by (simp add: is_js_space_def)
  then show ?thesis
    by (simp add: cleanedResponse_def one three trim_snoc_space)
qed

lemma generateGlossary_post_fenced:
  assumes "0x60 \<notin> set b"
  shows "generateGlossary_post (Some (JStr (fenced b))) = generateGlossary_post (Some (JStr b))"
    and "generateGlossary_post (Some (JStr (fenced_plain b))) = generateGlossary_post (Some (JStr b))"
  using assms
  by (simp_all add: generateGlossary_post_string cleanedResponse_fenced
        cleanedResponse_fenced_plain cleanedResponse_no_backtick)

lemma generateGlossary_post_fenced_example:
  \<open>generateGlossary_post
     (Some (JStr (ascii ''```json\<newline>[{"term":"x","definition":"y"}]\<newline>```'')))
     = Inr (Some (JArr [JObj [(ascii ''term'', JStr (ascii ''x'')),
                               (ascii ''definition'', JStr (ascii ''y''))]]))\<close>
  by (simp add: generateGlossary_post_string js_eval term_and_definition_truthy_def get_opt_def
        truthy_opt_def)

lemma generateGlossary_post_not_json_example:
  \<open>generateGlossary_post (Some (JStr (ascii ''Here are the terms: x, y''))) = Inr (Some (JArr []))\<close>
  by (simp add: generateGlossary_post_string js_eval)

lemma generateGlossary_post_no_definition_example:
  \<open>generateGlossary_post (Some (JStr (ascii ''[{"term":"x"}]''))) = Inr (Some (JArr []))\<close>
  by (simp add: generateGlossary_post_string js_eval term_and_definition_truthy_def get_opt_def
        truthy_opt_def)

text \<open>
  C1. For every raw completion string the glossary normalizer returns, and never
  throws: it strips the code fences, parses the rest as JSON, and gives the parsed
  array when the value is an array whose every element has a non-empty (truthy)
  \<open>term\<close> and \<open>definition\<close>, the empty array when the parse fails or the value does
  not pass. A completion wrapped in a fence (with the json tag or without), with no
  backtick of its own, gives what the bare completion gives. The fenced \<open>[{"term":"x","definition":"y"}]\<close> gives that
  array; a text that is no JSON and an element with no \<open>definition\<close> give \<open>[]\<close>. The
  normalizer returns on whatever the adapter hands it, string or not.
\<close>

theorem generateGlossary_post_spec:
  \<open>generateGlossary_post (Some (JStr response)) =
     Inr (Some (case JSON_parse (cleanedResponse response) of
                  Some (JArr items) \<Rightarrow>
                    if list_all term_and_definition_truthy items then JArr items else JArr []
                | _ \<Rightarrow> JArr []))
   \<and> (0x60 \<notin> set b \<longrightarrow>
        cleanedResponse (fenced b) = trim b
        \<and> cleanedResponse (fenced_plain b) = trim b
        \<and> generateGlossary_post (Some (JStr (fenced b))) = generateGlossary_post (Some (JStr b))
        \<and> generateGlossary_post (Some (JStr (fenced_plain b)))
            = generateGlossary_post (Some (JStr b)))
   \<and> generateGlossary_post
        (Some (JStr (ascii ''```json\<newline>[{"term":"x","definition":"y"}]\<newline>```'')))
       = Inr (Some (JArr [JObj [(ascii ''term'', JStr (ascii ''x'')),
                                 (ascii ''definition'', JStr (ascii ''y''))]]))
   \<and> generateGlossary_post (Some (JStr (ascii ''Here are the terms: x, y''))) = Inr (Some (JArr []))
   \<and> generateGlossary_post (Some (JStr (ascii ''[{"term":"x"}]''))) = Inr (Some (JArr []))
   \<and> (\<exists>g. generateGlossary_post raw = Inr (Some g))\<close>
  using generateGlossary_post_string [of response] cleanedResponse_fenced [of b]
    cleanedResponse_fenced_plain [of b]
    generateGlossary_post_fenced [of b] generateGlossary_post_fenced_example
    generateGlossary_post_not_json_example generateGlossary_post_no_definition_example
    generateGlossary_post_returns [of raw]
  by blast

theorem generateGlossary_post_spec_witness:
  \<open>0x60 \<notin> set (ascii ''[{"term":"x","definition":"y"}]'')
   \<and> fenced (ascii ''[{"term":"x","definition":"y"}]'')
       = ascii ''```json\<newline>[{"term":"x","definition":"y"}]\<newline>```''
   \<and> cleanedResponse (fenced (ascii ''[{"term":"x","definition":"y"}]''))
       = ascii ''[{"term":"x","definition":"y"}]''
   \<and> generateGlossary_post (Some (JStr (fenced (ascii ''[{"term":"x","definition":"y"}]''))))
       = generateGlossary_post (Some (JStr (ascii ''[{"term":"x","definition":"y"}]'')))\<close>
proof -
  let ?b = \<open>ascii ''[{"term":"x","definition":"y"}]''\<close>
  have h: "0x60 \<notin> set ?b" by (simp add: ascii_def)
  have f: \<open>fenced ?b = ascii ''```json\<newline>[{"term":"x","definition":"y"}]\<newline>```''\<close>
    by (simp add: fenced_def ascii_def)
  have t: "trim ?b = ?b" by (simp add: js_eval)
  from generateGlossary_post_spec [of _ ?b] h
  have "cleanedResponse (fenced ?b) = trim ?b
        \<and> generateGlossary_post (Some (JStr (fenced ?b))) = generateGlossary_post (Some (JStr ?b))"
    by blast
  with h f t show ?thesis by simp
qed

text \<open>
  C9. The glossary's validation is by truthiness and all or nothing: when the
  cleaned completion parses to an array, the result is that array unchanged (extra
  fields and all) if every element has a truthy \<open>term\<close> and \<open>definition\<close>, of any
  type, and the empty array if one element has a falsy or absent field; no element
  is filtered out on its own.
\<close>

theorem glossary_validation_all_or_nothing:
  assumes "JSON_parse (cleanedResponse response) = Some (JArr items)"
  shows "generateGlossary_post (Some (JStr response)) =
           Inr (Some (JArr (if list_all term_and_definition_truthy items then items else [])))"
  using assms by (simp add: generateGlossary_post_string)

theorem glossary_validation_all_or_nothing_witness:
  \<open>JSON_parse (cleanedResponse (ascii ''[{"term":7,"definition":" ","source":null}]''))
     = Some (JArr [JObj [(ascii ''term'', JNum 7), (ascii ''definition'', JStr (ascii '' '')),
                         (ascii ''source'', JNull)]])
   \<and> generateGlossary_post (Some (JStr (ascii ''[{"term":7,"definition":" ","source":null}]'')))
     = Inr (Some (JArr [JObj [(ascii ''term'', JNum 7), (ascii ''definition'', JStr (ascii '' '')),
                         (ascii ''source'', JNull)]]))
   \<and> JSON_parse (cleanedResponse (ascii ''[{"term":"a","definition":"b"},{"term":"c","definition":""}]''))
     = Some (JArr [JObj [(ascii ''term'', JStr (ascii ''a'')), (ascii ''definition'', JStr (ascii ''b''))],
                   JObj [(ascii ''term'', JStr (ascii ''c'')), (ascii ''definition'', JStr [])]])
   \<and> generateGlossary_post (Some (JStr (ascii ''[{"term":"a","definition":"b"},{"term":"c","definition":""}]'')))
     = Inr (Some (JArr []))\<close>
proof -
  have p1: \<open>JSON_parse (cleanedResponse (ascii ''[{"term":7,"definition":" ","source":null}]''))
     = Some (JArr [JObj [(ascii ''term'', JNum 7), (ascii ''definition'', JStr (ascii '' '')),
                         (ascii ''source'', JNull)]])\<close>
    by (simp add: js_eval)
  have p2: \<open>JSON_parse (cleanedResponse (ascii ''[{"term":"a","definition":"b"},{"term":"c","definition":""}]''))
     = Some (JArr [JObj [(ascii ''term'', JStr (ascii ''a'')), (ascii ''definition'', JStr (ascii ''b''))],
                   JObj [(ascii ''term'', JStr (ascii ''c'')), (ascii ''definition'', JStr [])]])\<close>
    by (simp add: js_eval)
  show ?thesis
    using glossary_validation_all_or_nothing [OF p1] glossary_validation_all_or_nothing [OF p2] p1 p2
    by (simp add: term_and_definition_truthy_def get_opt_def truthy_opt_def ascii_def)
qed

section \<open>The grammar-error normalizer\<close>

lemma has_error_and_correction_cases:
  "has_error_and_correction item =
     (if item = JNull then Inl TypeError else Inr (error_and_correction_truthy item))"
  by (cases item)
     (simp_all add: has_error_and_correction_def error_and_correction_truthy_def and_then_def
        get_opt_def truthy_opt_def)

lemma filter_js_has_error_and_correction:
  "filter_js has_error_and_correction items =
     (if JNull \<in> set items then Inl TypeError
      else Inr (filter error_and_correction_truthy items))"
  by (induction items) (auto simp: has_error_and_correction_cases)

lemma findGrammarErrors_post_string:
  "findGrammarErrors_post (Some (JStr response)) =
     Inr (Some (case JSON_parse (cleanedResponse response) of
                  Some (JArr items) \<Rightarrow>
                    if JNull \<in> set items then JArr []
                    else JArr (filter error_and_correction_truthy items)
                | _ \<Rightarrow> JArr []))"
proof (cases "JSON_parse (cleanedResponse response)")
  case None
  then show ?thesis
    by (simp add: findGrammarErrors_post_def grammar_errors_try_def string_receiver_def and_then_def)
next
  case (Some g)
  then show ?thesis
    by (cases g)
       (simp_all add: findGrammarErrors_post_def grammar_errors_try_def string_receiver_def
          and_then_def filter_js_has_error_and_correction)
qed

lemma findGrammarErrors_post_returns: "\<exists>g. findGrammarErrors_post raw = Inr (Some g)"
  by (cases "grammar_errors_try raw") (simp_all add: findGrammarErrors_post_def)

text \<open>
  C10, as the code has it. For every raw completion string findGrammarErrors's
  normalizer returns and never throws: it strips the fences and parses the rest; for
  an array with no \<open>null\<close> element it keeps exactly the elements with a truthy
  \<open>error\<close> and \<open>correction\<close>, in order; for a parse failure, a value that is no
  array, or an array that holds a \<open>null\<close> element (whose field read throws inside
  the try block) it returns the empty array.
\<close>

theorem findGrammarErrors_post_spec:
  "findGrammarErrors_post (Some (JStr response)) =
     Inr (Some (case JSON_parse (cleanedResponse response) of
                  Some (JArr items) \<Rightarrow>
                    if JNull \<in> set items then JArr []
                    else JArr (filter error_and_correction_truthy items)
                | _ \<Rightarrow> JArr []))
   \<and> (\<exists>g. findGrammarErrors_post raw = Inr (Some g))"
  using findGrammarErrors_post_string [of response] findGrammarErrors_post_returns [of raw]
  by blast

text \<open>
  The claim as stated fails on an array with a \<open>null\<close> element: the element with a
  truthy \<open>error\<close> and \<open>correction\<close> is not kept, the result is \<open>[]\<close>.
\<close>

theorem findGrammarErrors_null_element_counterexample:
  \<open>JSON_parse (cleanedResponse (ascii ''[null,{"error":"a","correction":"b"}]''))
     = Some (JArr [JNull, JObj [(ascii ''error'', JStr (ascii ''a'')),
                                (ascii ''correction'', JStr (ascii ''b''))]])
   \<and> filter error_and_correction_truthy
        [JNull, JObj [(ascii ''error'', JStr (ascii ''a'')), (ascii ''correction'', JStr (ascii ''b''))]]
     = [JObj [(ascii ''error'', JStr (ascii ''a'')), (ascii ''correction'', JStr (ascii ''b''))]]
   \<and> findGrammarErrors_post (Some (JStr (ascii ''[null,{"error":"a","correction":"b"}]'')))
     = Inr (Some (JArr []))\<close>
  by (simp add: findGrammarErrors_post_def grammar_errors_try_def string_receiver_def and_then_def
        has_error_and_correction_def error_and_correction_truthy_def get_opt_def truthy_opt_def
        js_eval)

section \<open>The upstream completion adapter: one attempt\<close>

lemma get_prop_opt:
  "get_prop v k = (if v = None \<or> v = Some JNull then Inl TypeError else Inr (get_opt v k))"
  by (cases "(v, k)" rule: get_prop.cases) (simp_all add: get_opt_def)

lemma get_opt_absent: "get_opt None k = None" "get_opt (Some JNull) k = None"
  by (simp_all add: get_opt_def)

lemma get_index0_error: "get_index0 v = Inl e \<Longrightarrow> e = TypeError"
  by (cases v rule: get_index0.cases) simp_all

lemma first_choice_content_cases:
  "first_choice_content data =
     (case first_choice_message data of
        None \<Rightarrow> Inl TypeError
      | Some m \<Rightarrow> if m = JNull then Inl TypeError else Inr (get_opt (Some m) (ascii ''content'')))"
proof (cases "data = JNull")
  case True
  then show ?thesis
    by (simp add: first_choice_content_def first_choice_message_def and_then_def get_opt_absent)
next
  case d: False
  show ?thesis
  proof (cases "get_index0 (get_opt (Some data) (ascii ''choices''))")
    case (Inl e)
    then have i: "get_index0 (get_opt (Some data) (ascii ''choices'')) = Inl TypeError"
      using get_index0_error by blast
    with d show ?thesis
      by (simp add: first_choice_content_def first_choice_message_def and_then_def get_prop_opt)
  next
    case (Inr choice)
    with d show ?thesis
      by (auto simp: first_choice_content_def first_choice_message_def and_then_def get_prop_opt
            get_opt_absent split: option.splits)
  qed
qed

lemma upstream_error_None: "upstream_error eng None = Error (ascii ''AI service error'')"
  by (simp add: upstream_error_def upstream_message_def get_opt_def truthy_opt_def)

lemma upstream_error_message:
  "upstream_message data = Some (JStr m) \<Longrightarrow> m \<noteq> [] \<Longrightarrow> upstream_error eng data = Error m"
  by (simp add: upstream_error_def truthy_opt_def ToString_def)

lemma upstream_error_generic:
  "\<not> truthy_opt (upstream_message data) \<Longrightarrow> upstream_error eng data = Error (ascii ''AI service error'')"
  by (simp add: upstream_error_def)

lemma callGroqAPI_world:
  "snd (callGroqAPI up eng p c k w) = w\<lparr>sent := sent w @ [completion_request p c k]\<rparr>"
  by (simp add: callGroqAPI_def Let_def split: http_outcome.splits sum.splits)

lemma callGroqAPI_result:
  "fst (callGroqAPI up eng p c k w) =
     (case up (length (sent w)) (completion_request p c k) of
        Responded data \<Rightarrow>
          (case first_choice_message data of
             None \<Rightarrow> Inl (Error (ascii ''AI service error''))
           | Some m \<Rightarrow>
               if m = JNull then Inl (Error (ascii ''AI service error''))
               else Inr (get_opt (Some m) (ascii ''content'')))
      | Failed data \<Rightarrow> Inl (upstream_error eng data))"
proof (cases "up (length (sent w)) (completion_request p c k)")
  case (Responded data)
  then show ?thesis
    by (simp add: callGroqAPI_def Let_def first_choice_content_cases upstream_error_None
          split: option.splits)
next
  case (Failed data)
  then show ?thesis by (simp add: callGroqAPI_def Let_def)
qed

text \<open>
  C5, as the code has it. Every call of callGroqAPI sends exactly one request and
  never a second one, whatever the outcome. On a 2xx response it returns the
  \<open>content\<close> of the first choice's message when \<open>choices\<close>, its first element and
  the \<open>message\<close> are there: the completion text, or \<open>undefined\<close> when the message
  has no \<open>content\<close> (it does not fail then); when one of the three is missing or
  \<open>null\<close> it fails with the generic \<open>AI service error\<close>. When the exchange fails it
  fails with the error of the catch block: the upstream's \<open>error.message\<close> when that
  is a non-empty string, the generic message when there is none or it is falsy.
\<close>

theorem callGroqAPI_one_attempt:
  "snd (callGroqAPI up eng p c k w) = w\<lparr>sent := sent w @ [completion_request p c k]\<rparr>
   \<and> length (sent (snd (callGroqAPI up eng p c k w))) = Suc (length (sent w))
   \<and> fst (callGroqAPI up eng p c k w) =
       (case up (length (sent w)) (completion_request p c k) of
          Responded data \<Rightarrow>
            (case first_choice_message data of
               None \<Rightarrow> Inl (Error (ascii ''AI service error''))
             | Some m \<Rightarrow>
                 if m = JNull then Inl (Error (ascii ''AI service error''))
                 else Inr (get_opt (Some m) (ascii ''content'')))
        | Failed data \<Rightarrow> Inl (upstream_error eng data))
   \<and> (\<forall>data m. upstream_message data = Some (JStr m) \<longrightarrow> m \<noteq> []
         \<longrightarrow> upstream_error eng data = Error m)
   \<and> (\<forall>data. \<not> truthy_opt (upstream_message data)
         \<longrightarrow> upstream_error eng data = Error (ascii ''AI service error''))"
  using callGroqAPI_world [of up eng p c k w] callGroqAPI_result [of up eng p c k w]
    upstream_error_message [of _ _ eng] upstream_error_generic [of _ eng]
  by simp

theorem callGroqAPI_one_attempt_witness:
  \<open>upstream_message (Some (JObj [(ascii ''error'', JObj [(ascii ''message'', JStr (ascii ''Invalid API Key''))])]))
     = Some (JStr (ascii ''Invalid API Key''))
   \<and> ascii ''Invalid API Key'' \<noteq> []
   \<and> \<not> truthy_opt (upstream_message None)
   \<and> fst (callGroqAPI
        (always (Failed (Some (JObj [(ascii ''error'', JObj [(ascii ''message'', JStr (ascii ''Invalid API Key''))])])))) strict_engine
        summarize_prompt (JStr (ascii ''note'')) (ascii ''gsk_1'') \<lparr>sent = []\<rparr>)
     = Inl (Error (ascii ''Invalid API Key''))
   \<and> length (sent (snd (callGroqAPI
        (always (Failed (Some (JObj [(ascii ''error'', JObj [(ascii ''message'', JStr (ascii ''Invalid API Key''))])])))) strict_engine
        summarize_prompt (JStr (ascii ''note'')) (ascii ''gsk_1'') \<lparr>sent = []\<rparr>))) = 1
   \<and> fst (callGroqAPI (always (Failed None)) strict_engine
        summarize_prompt (JStr (ascii ''note'')) (ascii ''gsk_1'') \<lparr>sent = []\<rparr>)
     = Inl (Error (ascii ''AI service error''))\<close>
proof -
  let ?d = "Some (JObj [(ascii ''error'', JObj [(ascii ''message'', JStr (ascii ''Invalid API Key''))])])"
  let ?eng = "strict_engine"
  have m: "upstream_message ?d = Some (JStr (ascii ''Invalid API Key''))"
    by (simp add: upstream_message_def get_opt_def ascii_def)
  have n: "ascii ''Invalid API Key'' \<noteq> []" by (simp add: ascii_def)
  have u: "\<not> truthy_opt (upstream_message None)"
    by (simp add: upstream_message_def get_opt_def truthy_opt_def)
  note t1 = callGroqAPI_one_attempt [of "always (Failed ?d)" ?eng summarize_prompt
      "JStr (ascii ''note'')" "ascii ''gsk_1''" "\<lparr>sent = []\<rparr>"]
  note t2 = callGroqAPI_one_attempt [of "always (Failed None)" ?eng summarize_prompt
      "JStr (ascii ''note'')" "ascii ''gsk_1''" "\<lparr>sent = []\<rparr>"]
  from t1 m n have e1: "upstream_error ?eng ?d = Error (ascii ''Invalid API Key'')" by blast
  from t2 u have e2: "upstream_error ?eng None = Error (ascii ''AI service error'')" by blast
  from t1 have r1: "fst (callGroqAPI (always (Failed ?d)) ?eng summarize_prompt
      (JStr (ascii ''note'')) (ascii ''gsk_1'') \<lparr>sent = []\<rparr>) = Inl (upstream_error ?eng ?d)"
    by simp
  from t1 have l1: "length (sent (snd (callGroqAPI (always (Failed ?d)) ?eng summarize_prompt
      (JStr (ascii ''note'')) (ascii ''gsk_1'') \<lparr>sent = []\<rparr>))) = 1"
    by simp
  from t2 have r2: "fst (callGroqAPI (always (Failed None)) ?eng summarize_prompt
      (JStr (ascii ''note'')) (ascii ''gsk_1'') \<lparr>sent = []\<rparr>) = Inl (upstream_error ?eng None)"
    by simp
  show ?thesis using m n u r1 l1 r2 e1 e2 by simp
qed

text \<open>
  The claim as stated fails on a 2xx response whose message has no \<open>content\<close>: the
  adapter neither returns a completion text nor fails, it returns \<open>undefined\<close>.
\<close>

theorem callGroqAPI_missing_content_counterexample:
  \<open>JSON_parse (ascii ''{"choices":[{"message":{"role":"assistant"}}]}'')
     = Some (JObj [(ascii ''choices'',
               JArr [JObj [(ascii ''message'', JObj [(ascii ''role'', JStr (ascii ''assistant''))])]])])
   \<and> callGroqAPI
        (always (Responded (JObj [(ascii ''choices'',
               JArr [JObj [(ascii ''message'', JObj [(ascii ''role'', JStr (ascii ''assistant''))])]])]))) strict_engine
        summarize_prompt (JStr (ascii ''note'')) (ascii ''gsk_1'') \<lparr>sent = []\<rparr>
     = (Inr None,
        \<lparr>sent = [completion_request summarize_prompt (JStr (ascii ''note'')) (ascii ''gsk_1'')]\<rparr>)\<close>
proof -
  have a: \<open>JSON_parse (ascii ''{"choices":[{"message":{"role":"assistant"}}]}'')
     = Some (JObj [(ascii ''choices'',
               JArr [JObj [(ascii ''message'', JObj [(ascii ''role'', JStr (ascii ''assistant''))])]])])\<close>
    by (simp add: js_eval)
  have b: "first_choice_content (JObj [(ascii ''choices'',
               JArr [JObj [(ascii ''message'', JObj [(ascii ''role'', JStr (ascii ''assistant''))])]])])
      = Inr None"
    by (simp add: first_choice_content_def and_then_def ascii_def)
  show ?thesis
    using a by (simp add: callGroqAPI_def Let_def b)
qed

section \<open>Pass-through and determinism of the normalizers\<close>

text \<open>
  C6. summarizeText and checkGrammar are the adapter with their prompt and nothing
  else: for every completion the adapter reads from the response they return exactly
  that value (no trimming, no fallback), and the one request sent is theirs.
\<close>

theorem pass_through_unchanged:
  "summarizeText up eng c k w = callGroqAPI up eng summarize_prompt c k w
   \<and> checkGrammar up eng c k w = callGroqAPI up eng grammar_prompt c k w
   \<and> (\<forall>data raw. up (length (sent w)) (completion_request summarize_prompt c k) = Responded data
        \<longrightarrow> first_choice_content data = Inr raw
        \<longrightarrow> summarizeText up eng c k w
            = (Inr raw, w\<lparr>sent := sent w @ [completion_request summarize_prompt c k]\<rparr>))
   \<and> (\<forall>data raw. up (length (sent w)) (completion_request grammar_prompt c k) = Responded data
        \<longrightarrow> first_choice_content data = Inr raw
        \<longrightarrow> checkGrammar up eng c k w
            = (Inr raw, w\<lparr>sent := sent w @ [completion_request grammar_prompt c k]\<rparr>))"
  by (simp add: summarizeText_def checkGrammar_def callGroqAPI_def Let_def)

theorem pass_through_unchanged_witness:
  \<open>JSON_parse (ascii ''{"choices":[{"message":{"role":"assistant","content":"  A note. "}}]}'')
     = Some (JObj [(ascii ''choices'', JArr [JObj [(ascii ''message'',
          JObj [(ascii ''role'', JStr (ascii ''assistant'')),
                (ascii ''content'', JStr (ascii ''  A note. ''))])]])])
   \<and> first_choice_content (JObj [(ascii ''choices'', JArr [JObj [(ascii ''message'',
          JObj [(ascii ''role'', JStr (ascii ''assistant'')),
                (ascii ''content'', JStr (ascii ''  A note. ''))])]])])
     = Inr (Some (JStr (ascii ''  A note. '')))
   \<and> fst (summarizeText
        (always (Responded (JObj [(ascii ''choices'', JArr [JObj [(ascii ''message'',
          JObj [(ascii ''role'', JStr (ascii ''assistant'')),
                (ascii ''content'', JStr (ascii ''  A note. ''))])]])]))) strict_engine
        (JStr (ascii ''note'')) (ascii ''gsk_live'') \<lparr>sent = []\<rparr>)
     = Inr (Some (JStr (ascii ''  A note. '')))
   \<and> fst (checkGrammar
        (always (Responded (JObj [(ascii ''choices'', JArr [JObj [(ascii ''message'',
          JObj [(ascii ''role'', JStr (ascii ''assistant'')),
                (ascii ''content'', JStr (ascii ''  A note. ''))])]])]))) strict_engine
        (JStr (ascii ''note'')) (ascii ''gsk_live'') \<lparr>sent = []\<rparr>)
     = Inr (Some (JStr (ascii ''  A note. '')))\<close>
proof -
  let ?data = "JObj [(ascii ''choices'', JArr [JObj [(ascii ''message'',
          JObj [(ascii ''role'', JStr (ascii ''assistant'')),
                (ascii ''content'', JStr (ascii ''  A note. ''))])]])]"
  let ?up = "always (Responded ?data)"
  let ?eng = "strict_engine"
  have p: \<open>JSON_parse (ascii ''{"choices":[{"message":{"role":"assistant","content":"  A note. "}}]}'')
     = Some ?data\<close>
    by (simp add: js_eval)
  have f: "first_choice_content ?data = Inr (Some (JStr (ascii ''  A note. '')))"
    by (simp add: first_choice_content_def and_then_def ascii_def)
  note t = pass_through_unchanged [of ?up ?eng "JStr (ascii ''note'')" "ascii ''gsk_live''" "\<lparr>sent = []\<rparr>"]
  have u: "?up (length (sent \<lparr>sent = []\<rparr>)) r = Responded ?data" for r
    by simp
  note s = t [THEN conjunct2, THEN conjunct2, THEN conjunct1, rule_format, OF u f]
  note g = t [THEN conjunct2, THEN conjunct2, THEN conjunct2, rule_format, OF u f]
  from p f s g show ?thesis by simp
qed

lemma run_task_normalize:
  "fst (run_task t up eng c k w)
     = and_then (fst (callGroqAPI up eng (task_prompt t) c k w)) (normalize t)"
proof (cases t)
  case Summarize
  then show ?thesis
    by (cases "fst (callGroqAPI up eng summarize_prompt c k w)")
       (simp_all add: summarizeText_def and_then_def)
next
  case Tags
  then show ?thesis
    by (cases "callGroqAPI up eng tags_prompt c k w")
       (simp add: suggestTags_def and_then_def split: sum.splits)
next
  case Grammar
  then show ?thesis
    by (cases "fst (callGroqAPI up eng grammar_prompt c k w)")
       (simp_all add: checkGrammar_def and_then_def)
next
  case Glossary
  then show ?thesis
    by (cases "callGroqAPI up eng glossary_prompt c k w")
       (simp add: generateGlossary_def and_then_def split: sum.splits)
qed

text \<open>
  C7. For every task kind the result of the task is the normalizer applied to the
  completion the adapter returned, and the normalizer is a function of that
  completion alone: two runs that got the same raw completion, whatever their
  upstream, engine, content, credential and world, give the same result, the
  normalizer's value on that completion.
\<close>

theorem normalization_deterministic:
  "fst (run_task t up eng c k w)
     = and_then (fst (callGroqAPI up eng (task_prompt t) c k w)) (normalize t)
   \<and> (fst (callGroqAPI up1 eng1 (task_prompt t) c1 k1 w1) = Inr raw
      \<longrightarrow> fst (callGroqAPI up2 eng2 (task_prompt t) c2 k2 w2) = Inr raw
      \<longrightarrow> fst (run_task t up1 eng1 c1 k1 w1) = normalize t raw
          \<and> fst (run_task t up2 eng2 c2 k2 w2) = normalize t raw)"
  by (simp add: run_task_normalize and_then_def)

theorem normalization_deterministic_witness:
  \<open>fst (callGroqAPI
        (always (Responded (JObj [(ascii ''choices'', JArr [JObj [(ascii ''message'',
                    JObj [(ascii ''content'', JStr (ascii ''a, b''))])]])]))) strict_engine
        (task_prompt Tags) (JStr (ascii ''first note'')) (ascii ''gsk_1'') \<lparr>sent = []\<rparr>)
     = Inr (Some (JStr (ascii ''a, b'')))
   \<and> fst (callGroqAPI
        (answer_nth 1 (Responded (JObj [(ascii ''choices'', JArr [JObj [(ascii ''message'',
                    JObj [(ascii ''content'', JStr (ascii ''a, b''))])]])]))) lenient_engine
        (task_prompt Tags) (JStr (ascii ''second note'')) (ascii ''gsk_2'')
        \<lparr>sent = [completion_request summarize_prompt (JStr (ascii ''first note'')) (ascii ''gsk_1'')]\<rparr>)
     = Inr (Some (JStr (ascii ''a, b'')))
   \<and> fst (run_task Tags
        (always (Responded (JObj [(ascii ''choices'', JArr [JObj [(ascii ''message'',
                    JObj [(ascii ''content'', JStr (ascii ''a, b''))])]])]))) strict_engine
        (JStr (ascii ''first note'')) (ascii ''gsk_1'') \<lparr>sent = []\<rparr>)
     = Inr (Some (JArr [JStr (ascii ''a''), JStr (ascii ''b'')]))
   \<and> fst (run_task Tags
        (answer_nth 1 (Responded (JObj [(ascii ''choices'', JArr [JObj [(ascii ''message'',
                    JObj [(ascii ''content'', JStr (ascii ''a, b''))])]])]))) lenient_engine
        (JStr (ascii ''second note'')) (ascii ''gsk_2'')
        \<lparr>sent = [completion_request summarize_prompt (JStr (ascii ''first note'')) (ascii ''gsk_1'')]\<rparr>)
     = Inr (Some (JArr [JStr (ascii ''a''), JStr (ascii ''b'')]))\<close>
proof -
  let ?data = "JObj [(ascii ''choices'', JArr [JObj [(ascii ''message'',
                    JObj [(ascii ''content'', JStr (ascii ''a, b''))])]])]"
  let ?up1 = "always (Responded ?data)"
  let ?up2 = "answer_nth 1 (Responded ?data)"
  let ?eng1 = "strict_engine"
  let ?eng2 = "lenient_engine"
  let ?w2 = "\<lparr>sent = [completion_request summarize_prompt (JStr (ascii ''first note'')) (ascii ''gsk_1'')]\<rparr>"
  have f: "first_choice_content ?data = Inr (Some (JStr (ascii ''a, b'')))"
    by (simp add: first_choice_content_def and_then_def ascii_def)
  have r1: "fst (callGroqAPI ?up1 ?eng1 (task_prompt Tags) (JStr (ascii ''first note''))
      (ascii ''gsk_1'') \<lparr>sent = []\<rparr>) = Inr (Some (JStr (ascii ''a, b'')))"
    by (simp add: callGroqAPI_def Let_def f)
  have r2: "fst (callGroqAPI ?up2 ?eng2 (task_prompt Tags) (JStr (ascii ''second note''))
      (ascii ''gsk_2'') ?w2) = Inr (Some (JStr (ascii ''a, b'')))"
    by (simp add: callGroqAPI_def Let_def f)
  have n: "normalize Tags (Some (JStr (ascii ''a, b'')))
      = Inr (Some (JArr [JStr (ascii ''a''), JStr (ascii ''b'')]))"
    by (simp add: suggestTags_post_def string_receiver_def and_then_def suggestTags_parse_def
          js_eval)
  from normalization_deterministic [of Tags ?up1 ?eng1 "JStr (ascii ''first note'')"
      "ascii ''gsk_1''" "\<lparr>sent = []\<rparr>" ?up1 ?eng1 "JStr (ascii ''first note'')" "ascii ''gsk_1''"
      "\<lparr>sent = []\<rparr>" "Some (JStr (ascii ''a, b''))" ?up2 ?eng2 "JStr (ascii ''second note'')"
      "ascii ''gsk_2''" ?w2] r1 r2
  have "fst (run_task Tags ?up1 ?eng1 (JStr (ascii ''first note'')) (ascii ''gsk_1'') \<lparr>sent = []\<rparr>)
          = normalize Tags (Some (JStr (ascii ''a, b'')))
      \<and> fst (run_task Tags ?up2 ?eng2 (JStr (ascii ''second note'')) (ascii ''gsk_2'') ?w2)
          = normalize Tags (Some (JStr (ascii ''a, b'')))"
    by blast
  with r1 r2 n show ?thesis by simp
qed

section \<open>The route: requests answered before any upstream call\<close>

lemma post_api_ai_missing:
  "\<not> truthy_opt (request_task b) \<or> \<not> truthy_opt (request_content b)
   \<Longrightarrow> post_api_ai key up eng b w = (missing_fields_reply, w)"
  by (auto simp: post_api_ai_def request_task_def request_content_def truthy_opt_def
        missing_fields_reply_def Let_def split: option.splits)

lemma post_api_ai_not_configured:
  "truthy_opt (request_task b) \<Longrightarrow> truthy_opt (request_content b) \<Longrightarrow> \<not> hasApiKey key
   \<Longrightarrow> post_api_ai key up eng b w = (not_configured_reply, w)"
  by (auto simp: post_api_ai_def request_task_def request_content_def truthy_opt_def
        not_configured_reply_def hasApiKey_def Let_def split: option.splits)

lemma post_api_ai_dispatch:
  "request_task b = Some t \<Longrightarrow> request_content b = Some c \<Longrightarrow> truthy t \<Longrightarrow> truthy c
   \<Longrightarrow> key = Some k \<Longrightarrow> hasApiKey key
   \<Longrightarrow> post_api_ai key up eng b w =
       (case dispatch up eng k t c w of
          (Inl e, w') \<Rightarrow> (\<lparr>status = 500, payload = FailureBody e (Some t)\<rparr>, w')
        | (Inr r, w') \<Rightarrow> (r, w'))"
  by (simp add: post_api_ai_def request_task_def request_content_def hasApiKey_def Let_def)

lemma dispatch_too_large:
  "length s > 50000 \<Longrightarrow> dispatch up eng k t (JStr s) w = (Inr too_large_reply, w)"
  by (simp add: dispatch_def content_too_large_def too_large_reply_def)

lemma dispatch_unknown_world:
  "Some t \<notin> valid_tasks \<Longrightarrow> snd (dispatch up eng k t c w) = w"
  by (simp add: dispatch_def valid_tasks_def split: sum.splits)

lemma dispatch_unknown_status:
  "Some t \<notin> valid_tasks \<Longrightarrow> dispatch up eng k t c w = (Inr r, w') \<Longrightarrow> status r = 400"
  by (auto simp: dispatch_def valid_tasks_def split: sum.splits if_splits)

lemma dispatch_unknown_string:
  "Some (JStr t) \<notin> valid_tasks \<Longrightarrow> length c \<le> 50000
   \<Longrightarrow> dispatch up eng k (JStr t) (JStr c) w
       = (Inr \<lparr>status = 400, payload = ErrorBody (unknown_task_message t)\<rparr>, w)"
  by (simp add: dispatch_def valid_tasks_def content_too_large_def log_request_def ToString_def
        and_then_def)

lemma truthy_opt_Some_iff: "truthy_opt v \<longleftrightarrow> (\<exists>x. v = Some x \<and> truthy x)"
  by (cases v) (simp_all add: truthy_opt_def)

lemma hasApiKey_Some: "hasApiKey key \<Longrightarrow> \<exists>k. key = Some k"
  by (cases key) (simp_all add: hasApiKey_def)

lemma post_api_ai_world_changed:
  assumes "snd (post_api_ai key up eng b w) \<noteq> w"
  shows "truthy_opt (request_task b) \<and> truthy_opt (request_content b)"
proof (rule ccontr)
  assume "\<not> ?thesis"
  then have "post_api_ai key up eng b w = (missing_fields_reply, w)"
    using post_api_ai_missing by blast
  with assms show False by simp
qed

text \<open>
  C8. When the task or the content of the request is falsy (the empty string, 0,
  false, null, or absent) the handler answers 400 with the missing-fields message
  and sends nothing upstream; so whenever a request is sent upstream, and a task
  function runs, both the task and the content are truthy.
\<close>

theorem post_api_ai_falsy_field:
  "(\<not> truthy_opt (request_task b) \<or> \<not> truthy_opt (request_content b)
      \<longrightarrow> post_api_ai key up eng b w = (missing_fields_reply, w))
   \<and> (snd (post_api_ai key up eng b w) \<noteq> w
      \<longrightarrow> truthy_opt (request_task b) \<and> truthy_opt (request_content b))"
  using post_api_ai_missing [of b key up eng w] post_api_ai_world_changed [of key up eng b w]
  by blast

theorem post_api_ai_falsy_field_witness:
  "\<not> truthy_opt (request_task (JObj [(ascii ''task'', JStr []), (ascii ''content'', JStr (ascii ''note''))]))
   \<and> post_api_ai (Some (ascii ''gsk_live'')) (always (Failed None)) strict_engine
        (JObj [(ascii ''task'', JStr []), (ascii ''content'', JStr (ascii ''note''))]) \<lparr>sent = []\<rparr>
       = (missing_fields_reply, \<lparr>sent = []\<rparr>)
   \<and> \<not> truthy_opt (request_content (JObj [(ascii ''task'', JStr (ascii ''summarize'')), (ascii ''content'', JNum 0)]))
   \<and> post_api_ai (Some (ascii ''gsk_live'')) (always (Failed None)) strict_engine
        (JObj [(ascii ''task'', JStr (ascii ''summarize'')), (ascii ''content'', JNum 0)]) \<lparr>sent = []\<rparr>
       = (missing_fields_reply, \<lparr>sent = []\<rparr>)
   \<and> snd (post_api_ai (Some (ascii ''gsk_live'')) (always (Failed None)) strict_engine
        (JObj [(ascii ''task'', JStr (ascii ''summarize'')), (ascii ''content'', JStr (ascii ''note''))])
        \<lparr>sent = []\<rparr>) \<noteq> \<lparr>sent = []\<rparr>
   \<and> truthy_opt (request_task (JObj [(ascii ''task'', JStr (ascii ''summarize'')), (ascii ''content'', JStr (ascii ''note''))]))
   \<and> truthy_opt (request_content (JObj [(ascii ''task'', JStr (ascii ''summarize'')), (ascii ''content'', JStr (ascii ''note''))]))"
proof -
  let ?eng = "strict_engine"
  let ?up = "always (Failed None)"
  let ?b1 = "JObj [(ascii ''task'', JStr []), (ascii ''content'', JStr (ascii ''note''))]"
  let ?b2 = "JObj [(ascii ''task'', JStr (ascii ''summarize'')), (ascii ''content'', JNum 0)]"
  let ?b3 = "JObj [(ascii ''task'', JStr (ascii ''summarize'')), (ascii ''content'', JStr (ascii ''note''))]"
  have h1: "\<not> truthy_opt (request_task ?b1)" by (simp add: route_eval)
  have h2: "\<not> truthy_opt (request_content ?b2)" by (simp add: route_eval)
  have h3: "snd (post_api_ai (Some (ascii ''gsk_live'')) ?up ?eng ?b3 \<lparr>sent = []\<rparr>) \<noteq> \<lparr>sent = []\<rparr>"
    by (simp add: post_api_ai_def get_opt_def Let_def dispatch_def content_too_large_def
          log_request_def ToString_def and_then_def respond_def summarizeText_def callGroqAPI_def
          ascii_def)
  show ?thesis
    using post_api_ai_falsy_field [of ?b1 "Some (ascii ''gsk_live'')" ?up ?eng "\<lparr>sent = []\<rparr>"]
      post_api_ai_falsy_field [of ?b2 "Some (ascii ''gsk_live'')" ?up ?eng "\<lparr>sent = []\<rparr>"]
      post_api_ai_falsy_field [of ?b3 "Some (ascii ''gsk_live'')" ?up ?eng "\<lparr>sent = []\<rparr>"]
      h1 h2 h3
    by blast
qed

text \<open>
  C3, as the code has it. When the content of the request is a string longer than
  50,000 code units nothing is sent upstream, and the answer is 400 unless the task
  is truthy and the credential is not configured: the credential check comes
  before the size check and answers 500. The answer is the missing-fields reply for
  a falsy task, the not-configured reply for a truthy task and no credential, the
  content-too-large reply otherwise.
\<close>

theorem post_api_ai_oversized:
  assumes "request_content b = Some (JStr s)" and "length s > 50000"
  shows "snd (post_api_ai key up eng b w) = w
     \<and> status (fst (post_api_ai key up eng b w))
         = (if truthy_opt (request_task b) \<and> \<not> hasApiKey key then 500 else 400)
     \<and> post_api_ai key up eng b w
         = (if \<not> truthy_opt (request_task b) then missing_fields_reply
            else if \<not> hasApiKey key then not_configured_reply
            else too_large_reply, w)"
proof -
  from assms have c: "truthy_opt (request_content b)" by (auto simp: truthy_opt_def)
  have e: "post_api_ai key up eng b w
         = (if \<not> truthy_opt (request_task b) then missing_fields_reply
            else if \<not> hasApiKey key then not_configured_reply
            else too_large_reply, w)"
  proof (cases "truthy_opt (request_task b)")
    case False
    then show ?thesis using post_api_ai_missing [of b key up eng w] by simp
  next
    case t: True
    show ?thesis
    proof (cases "hasApiKey key")
      case False
      with t c show ?thesis using post_api_ai_not_configured [of b key up eng w] by simp
    next
      case True
      then obtain k where k: "key = Some k" using hasApiKey_Some by blast
      from t obtain tv where tv: "request_task b = Some tv" "truthy tv"
        by (auto simp: truthy_opt_Some_iff)
      from assms have "truthy (JStr s)" by auto
      with tv assms True k t show ?thesis
        using post_api_ai_dispatch [of b tv "JStr s" key k up eng w]
        by (simp add: dispatch_too_large)
    qed
  qed
  then show ?thesis
    by (simp add: missing_fields_reply_def not_configured_reply_def too_large_reply_def)
qed

theorem post_api_ai_oversized_witness:
  "request_content (JObj [(ascii ''task'', JStr (ascii ''summarize'')),
                          (ascii ''content'', JStr (replicate 50001 0x61))])
     = Some (JStr (replicate 50001 0x61))
   \<and> length (replicate 50001 (0x61 :: code_unit)) > 50000
   \<and> post_api_ai (Some (ascii ''gsk_live'')) (always (Failed None)) strict_engine
        (JObj [(ascii ''task'', JStr (ascii ''summarize'')),
               (ascii ''content'', JStr (replicate 50001 0x61))]) \<lparr>sent = []\<rparr>
       = (too_large_reply, \<lparr>sent = []\<rparr>)
   \<and> status too_large_reply = 400"
proof -
  let ?eng = "strict_engine"
  let ?up = "always (Failed None)"
  let ?b = "JObj [(ascii ''task'', JStr (ascii ''summarize'')),
                  (ascii ''content'', JStr (replicate 50001 0x61))]"
  have c: "request_content ?b = Some (JStr (replicate 50001 0x61))" by (simp add: route_eval)
  have l: "length (replicate 50001 (0x61 :: code_unit)) > 50000" by simp
  have t: "truthy_opt (request_task ?b)" by (simp add: route_eval)
  have k: "hasApiKey (Some (ascii ''gsk_live''))" by (simp add: route_eval)
  show ?thesis
    using post_api_ai_oversized [OF c l, of "Some (ascii ''gsk_live'')" ?up ?eng "\<lparr>sent = []\<rparr>"]
      c l t k
    by (simp add: too_large_reply_def)
qed

text \<open>
  The claim as stated fails when the credential is not configured: an oversized
  content with a task gets 500, not 400.
\<close>

theorem post_api_ai_oversized_unconfigured_counterexample:
  "request_content (JObj [(ascii ''task'', JStr (ascii ''summarize'')),
                          (ascii ''content'', JStr (replicate 50001 0x61))])
     = Some (JStr (replicate 50001 0x61))
   \<and> length (replicate 50001 (0x61 :: code_unit)) > 50000
   \<and> status (fst (post_api_ai None (always (Failed None)) strict_engine
        (JObj [(ascii ''task'', JStr (ascii ''summarize'')),
               (ascii ''content'', JStr (replicate 50001 0x61))]) \<lparr>sent = []\<rparr>)) = 500"
  by (simp add: post_api_ai_def request_content_def get_opt_def Let_def ascii_def)

text \<open>
  C4, as the code has it. When the task of the request is outside the enumeration
  nothing is sent upstream and the answer is 400 or 500. When moreover the task is a
  non-empty string, the content a non-empty string of at most 50,000 code units and
  the credential configured, the answer is 400 with the message
  \<open>Unknown task: <task>. Valid tasks are: summarize, tags, grammar, glossary\<close>. The
  checks before the dispatch answer first: a falsy task or content, a missing
  credential (500), an oversized content.
\<close>

theorem post_api_ai_unknown_task:
  assumes "request_task b \<notin> valid_tasks"
  shows "snd (post_api_ai key up eng b w) = w
     \<and> (status (fst (post_api_ai key up eng b w)) = 400
        \<or> status (fst (post_api_ai key up eng b w)) = 500)
     \<and> (\<forall>t c. request_task b = Some (JStr t) \<longrightarrow> t \<noteq> []
          \<longrightarrow> request_content b = Some (JStr c) \<longrightarrow> c \<noteq> [] \<longrightarrow> length c \<le> 50000
          \<longrightarrow> hasApiKey key
          \<longrightarrow> post_api_ai key up eng b w
              = (\<lparr>status = 400, payload = ErrorBody (unknown_task_message t)\<rparr>, w))"
proof -
  have a: "snd (post_api_ai key up eng b w) = w
     \<and> (status (fst (post_api_ai key up eng b w)) = 400
        \<or> status (fst (post_api_ai key up eng b w)) = 500)"
  proof (cases "truthy_opt (request_task b) \<and> truthy_opt (request_content b)")
    case False
    then show ?thesis
      using post_api_ai_missing [of b key up eng w] by (auto simp: missing_fields_reply_def)
  next
    case tc: True
    show ?thesis
    proof (cases "hasApiKey key")
      case False
      with tc show ?thesis
        using post_api_ai_not_configured [of b key up eng w] by (simp add: not_configured_reply_def)
    next
      case True
      then obtain k where k: "key = Some k" using hasApiKey_Some by blast
      from tc obtain tv cv where v: "request_task b = Some tv" "truthy tv"
          "request_content b = Some cv" "truthy cv"
        by (auto simp: truthy_opt_Some_iff)
      from assms v have nv: "Some tv \<notin> valid_tasks" by simp
      obtain r w' where d: "dispatch up eng k tv cv w = (r, w')" by (cases "dispatch up eng k tv cv w")
      have w': "w' = w" using dispatch_unknown_world [OF nv, of up eng k cv w] d by simp
      from v True k d show ?thesis
        using post_api_ai_dispatch [of b tv cv key k up eng w] dispatch_unknown_status [OF nv, of up eng k cv w]
        by (cases r) (simp_all add: w')
    qed
  qed
  have b: "post_api_ai key up eng b w
              = (\<lparr>status = 400, payload = ErrorBody (unknown_task_message t)\<rparr>, w)"
    if "request_task b = Some (JStr t)" "t \<noteq> []" "request_content b = Some (JStr c)" "c \<noteq> []"
       "length c \<le> 50000" "hasApiKey key" for t c
  proof -
    from that obtain k where k: "key = Some k" using hasApiKey_Some by blast
    from assms that have nv: "Some (JStr t) \<notin> valid_tasks" by simp
    from that k show ?thesis
      using post_api_ai_dispatch [of b "JStr t" "JStr c" key k up eng w]
      by (simp add: dispatch_unknown_string [OF nv])
  qed
  from a b show ?thesis by blast
qed

theorem post_api_ai_unknown_task_witness:
  "request_task (JObj [(ascii ''task'', JStr (ascii ''translate'')), (ascii ''content'', JStr (ascii ''note''))])
     \<notin> valid_tasks
   \<and> post_api_ai (Some (ascii ''gsk_live'')) (always (Failed None)) strict_engine
        (JObj [(ascii ''task'', JStr (ascii ''translate'')), (ascii ''content'', JStr (ascii ''note''))])
        \<lparr>sent = []\<rparr>
     = (\<lparr>status = 400, payload = ErrorBody
          (ascii ''Unknown task: translate. Valid tasks are: summarize, tags, grammar, glossary'')\<rparr>,
        \<lparr>sent = []\<rparr>)"
proof -
  let ?eng = "strict_engine"
  let ?up = "always (Failed None)"
  let ?b = "JObj [(ascii ''task'', JStr (ascii ''translate'')), (ascii ''content'', JStr (ascii ''note''))]"
  have nv: "request_task ?b \<notin> valid_tasks" by (simp add: route_eval)
  have t: "request_task ?b = Some (JStr (ascii ''translate''))" by (simp add: route_eval)
  have c: "request_content ?b = Some (JStr (ascii ''note''))" by (simp add: route_eval)
  have k: "hasApiKey (Some (ascii ''gsk_live''))" by (simp add: route_eval)
  have n: "ascii ''translate'' \<noteq> []" "ascii ''note'' \<noteq> []" "length (ascii ''note'') \<le> 50000"
    by (simp_all add: ascii_def)
  have m: "unknown_task_message (ascii ''translate'')
      = ascii ''Unknown task: translate. Valid tasks are: summarize, tags, grammar, glossary''"
    by (simp add: unknown_task_message_def ascii_def)
  from post_api_ai_unknown_task [OF nv, of "Some (ascii ''gsk_live'')" ?up ?eng "\<lparr>sent = []\<rparr>"]
  have "post_api_ai (Some (ascii ''gsk_live'')) ?up ?eng ?b \<lparr>sent = []\<rparr>
      = (\<lparr>status = 400, payload = ErrorBody (unknown_task_message (ascii ''translate''))\<rparr>, \<lparr>sent = []\<rparr>)"
    using t c k n by blast
  with nv m show ?thesis by simp
qed

text \<open>
  The claim as stated fails when the credential is not configured: an unknown task
  gets 500 with the not-configured message.
\<close>

theorem post_api_ai_unknown_task_counterexample:
  "request_task (JObj [(ascii ''task'', JStr (ascii ''translate'')), (ascii ''content'', JStr (ascii ''note''))])
     \<notin> valid_tasks
   \<and> status (fst (post_api_ai None (always (Failed None)) strict_engine
        (JObj [(ascii ''task'', JStr (ascii ''translate'')), (ascii ''content'', JStr (ascii ''note''))])
        \<lparr>sent = []\<rparr>)) = 500"
  by (simp add: post_api_ai_def route_eval Let_def)

end
